theory Spec2Isabelle
  imports Main "HOL-Library.Word" "HOL-Library.Signed_Division"
begin

section \<open>Machine integers, time and the shared declarations\<close>

text \<open>
  Go's \<^verbatim>\<open>uint\<close> and \<^verbatim>\<open>int\<close> are taken at 64 bits (the width on amd64 and arm64):
  \<^verbatim>\<open>uint\<close> is a 64-bit word compared unsigned, \<^verbatim>\<open>int64\<close> the same bits read by
  \<open>sint\<close>. A \<^verbatim>\<open>time.Duration\<close> is an \<^verbatim>\<open>int64\<close> of nanoseconds. A \<^verbatim>\<open>time.Time\<close> is
  the integer number of nanoseconds since the Unix epoch; the model does not bound it
  (Go saturates only beyond \<open>2 ^ 63\<close> seconds) and identifies the wall and the monotonic
  reading of an instant.
\<close>

type_synonym uint = "64 word"
type_synonym int64 = "64 word"
type_synonym Duration = "64 word"
type_synonym Time = int

definition After :: "Time \<Rightarrow> Time \<Rightarrow> bool" where
  "After t u = (u < t)"

definition Before :: "Time \<Rightarrow> Time \<Rightarrow> bool" where
  "Before t u = (t < u)"

definition Time_Add :: "Time \<Rightarrow> Duration \<Rightarrow> Time" where
  "Time_Add t d = t + sint d"

definition Unix :: "Time \<Rightarrow> int" where
  "Unix t = t div 1000000000"

definition Hour :: Duration where
  "Hour = 3600000000000"

text \<open>
  Modelled from the spec: the package \<^verbatim>\<open>leakybucket\<close> that both backends import
  (\<^verbatim>\<open>BucketState\<close>, \<^verbatim>\<open>ErrorFull\<close>) is not among the source files. \<^verbatim>\<open>BucketState\<close> is the
  snapshot \<open>{capacity, remaining, reset}\<close> that the backends build positionally;
  \<^verbatim>\<open>ErrorFull\<close> is the full-bucket signal. The other errors a backend can return are
  the one of \<^verbatim>\<open>strconv.Atoi\<close> (with the text it refused) and whatever the connection
  reports.
\<close>

record BucketState =
  Capacity :: uint
  Remaining :: uint
  Reset :: Time

datatype error = ErrorFull | NumError string | ConnError string

section \<open>The memory backend\<close>

record bucket =
  capacity :: uint
  remaining :: uint
  reset :: Time
  rate :: Duration
  updated :: Time

text \<open>
  \<^verbatim>\<open>Add\<close> reads the clock three times; \<open>now1\<close>, \<open>now2\<close> and \<open>now3\<close> are its readings
  in program order (for \<^verbatim>\<open>updated\<close>, for the comparison, for the new \<^verbatim>\<open>reset\<close>). The
  result is what the call returns, paired with the bucket as the call leaves it.
\<close>

definition memory_Add ::
  "bucket \<Rightarrow> uint \<Rightarrow> Time \<Rightarrow> Time \<Rightarrow> Time \<Rightarrow> (BucketState \<times> error option) \<times> bucket" where
  "memory_Add b0 amount now1 now2 now3 =
     (let b1 = b0\<lparr>updated := now1\<rparr>;
          b2 = (if After now2 (reset b1)
                then b1\<lparr>reset := Time_Add now3 (rate b1), remaining := capacity b1\<rparr>
                else b1)
      in if remaining b2 < amount
         then ((\<lparr>Capacity = capacity b2, Remaining = remaining b2, Reset = reset b2\<rparr>,
                Some ErrorFull), b2)
         else (let b3 = b2\<lparr>remaining := remaining b2 - amount\<rparr>
               in ((\<lparr>Capacity = capacity b3, Remaining = remaining b3, Reset = reset b3\<rparr>,
                    None), b3)))"

text \<open>\<^verbatim>\<open>AddWithTime\<close> reads the clock once, for \<^verbatim>\<open>updated\<close>; \<open>t\<close> is the supplied time.\<close>

definition AddWithTime ::
  "bucket \<Rightarrow> uint \<Rightarrow> Time \<Rightarrow> Time \<Rightarrow> (BucketState \<times> error option) \<times> bucket" where
  "AddWithTime b0 amount t now1 =
     (let b1 = b0\<lparr>updated := now1\<rparr>;
          b2 = (if After t (reset b1)
                then b1\<lparr>reset := Time_Add t (rate b1), remaining := capacity b1\<rparr>
                else b1);
          b3 = (if Before t (Time_Add (reset b2) (- 1 * rate b2))
                then b2\<lparr>reset := Time_Add t (rate b2)\<rparr>
                else b2)
      in if remaining b3 < amount
         then ((\<lparr>Capacity = capacity b3, Remaining = remaining b3, Reset = reset b3\<rparr>,
                Some ErrorFull), b3)
         else (let b4 = b3\<lparr>remaining := remaining b3 - amount\<rparr>
               in ((\<lparr>Capacity = capacity b4, Remaining = remaining b4, Reset = reset b4\<rparr>,
                    None), b4)))"

text \<open>
  The table of \<^verbatim>\<open>Storage\<close> holds pointers, and \<^verbatim>\<open>Create\<close> hands the same pointer
  out again, so the buckets live in an explicit store: \<open>heap\<close> is the list of the
  allocated buckets, a pointer is an index into it, and \<open>buckets\<close> is the table.
\<close>

record Storage =
  heap :: "bucket list"
  buckets :: "string \<rightharpoonup> nat"

definition memory_New :: Storage where
  "memory_New = \<lparr>heap = [], buckets = Map.empty\<rparr>"

text \<open>\<^verbatim>\<open>Create\<close> reads the clock twice when it allocates: for \<^verbatim>\<open>reset\<close>, for \<^verbatim>\<open>updated\<close>.\<close>

definition memory_Create ::
  "Storage \<Rightarrow> string \<Rightarrow> uint \<Rightarrow> Duration \<Rightarrow> Time \<Rightarrow> Time \<Rightarrow> (nat \<times> error option) \<times> Storage" where
  "memory_Create s name capacity' rate' now1 now2 =
     (case buckets s name of
        Some p \<Rightarrow> ((p, None), s)
      | None \<Rightarrow>
          (let b = \<lparr>capacity = capacity', remaining = capacity',
                    reset = Time_Add now1 rate', rate = rate', updated = now2\<rparr>;
               p = length (heap s)
           in ((p, None), s\<lparr>heap := heap s @ [b], buckets := (buckets s)(name \<mapsto> p)\<rparr>)))"

text \<open>A method call through the pointer \<open>p\<close>: the bucket at \<open>p\<close> is replaced by the one
  the method leaves.\<close>

definition call_Add ::
  "Storage \<Rightarrow> nat \<Rightarrow> uint \<Rightarrow> Time \<Rightarrow> Time \<Rightarrow> Time \<Rightarrow> (BucketState \<times> error option) \<times> Storage" where
  "call_Add s p amount now1 now2 now3 =
     (let (r, b) = memory_Add (heap s ! p) amount now1 now2 now3
      in (r, s\<lparr>heap := (heap s)[p := b]\<rparr>))"

definition call_AddWithTime ::
  "Storage \<Rightarrow> nat \<Rightarrow> uint \<Rightarrow> Time \<Rightarrow> Time \<Rightarrow> (BucketState \<times> error option) \<times> Storage" where
  "call_AddWithTime s p amount t now1 =
     (let (r, b) = AddWithTime (heap s ! p) amount t now1
      in (r, s\<lparr>heap := (heap s)[p := b]\<rparr>))"

text \<open>
  \<^verbatim>\<open>Clean\<close> ignores its argument (the loop variable shadows it) and reads the clock
  once per entry: \<open>now k\<close> is the reading made at the entry of key \<open>k\<close>. Each entry is
  judged by its own bucket alone, so the order of the iteration does not matter.
\<close>

definition Clean :: "Storage \<Rightarrow> string \<Rightarrow> (string \<Rightarrow> Time) \<Rightarrow> Storage" where
  "Clean s name now =
     s\<lparr>buckets := (\<lambda>k. case buckets s k of
                        None \<Rightarrow> None
                      | Some p \<Rightarrow>
                          if Before (updated (heap s ! p)) (Time_Add (now k) (- 1 * Hour))
                          then None else Some p)\<rparr>"

section \<open>The redis backend\<close>

subsection \<open>The connection\<close>

text \<open>
  The connection pool and the store behind it belong to another repository. The backend
  reaches them through \<^verbatim>\<open>conn.Do\<close> alone, so the model takes \<^verbatim>\<open>Do\<close> as a parameter:
  a function from the state \<open>'c\<close> of the store and a command to the reply, or the error,
  and the next state. The backend sends the four commands of \<open>cmd\<close>. A reply is an
  \<^verbatim>\<open>interface{}\<close> value: \<^verbatim>\<open>nil\<close>, a byte slice, an \<^verbatim>\<open>int64\<close>, or something else; the
  type assertions of the source panic on a reply of another type than the asserted one.
  Getting a connection from the pool and closing it have no effect in the model.
\<close>

datatype cmd =
  GET string
| INCRBY string uint
| PEXPIRE string int64
| PTTL string

datatype reply = RNil | RBytes string | RInt64 int64 | ROther

type_synonym 'c Do = "'c \<Rightarrow> cmd \<Rightarrow> (error + reply) \<times> 'c"

datatype 'a outcome = Return 'a | Panic

subsection \<open>Parsing the counter\<close>

text \<open>
  \<^verbatim>\<open>strconv.Atoi\<close> is Go's standard library: it accepts an optional sign followed by
  one or more decimal digits whose value fits an \<^verbatim>\<open>int64\<close>, and refuses every other
  text. \<^verbatim>\<open>byteArrayToUint\<close> drops the value that comes with an error, so the model
  of \<^verbatim>\<open>Atoi\<close> returns the error alone.
\<close>

definition digit :: "char \<Rightarrow> nat option" where
  "digit c = (let n = (of_char c :: nat) in if 48 \<le> n \<and> n \<le> 57 then Some (n - 48) else None)"

fun digits :: "nat \<Rightarrow> string \<Rightarrow> nat option" where
  "digits n [] = Some n"
| "digits n (c # cs) = (case digit c of None \<Rightarrow> None | Some d \<Rightarrow> digits (n * 10 + d) cs)"

definition Atoi :: "string \<Rightarrow> error + int64" where
  "Atoi s =
     (let (neg, ds) = (case s of
                         [] \<Rightarrow> (False, [])
                       | c # cs \<Rightarrow> if c = CHR ''-'' then (True, cs)
                                  else if c = CHR ''+'' then (False, cs)
                                  else (False, s))
      in if ds = [] then Inl (NumError s)
         else (case digits 0 ds of
                 None \<Rightarrow> Inl (NumError s)
               | Some n \<Rightarrow>
                   (let v = (if neg then - int n else int n)
                    in if v < - (2 ^ 63) \<or> 2 ^ 63 - 1 < v then Inl (NumError s)
                       else Inr (word_of_int v))))"

definition byteArrayToUint :: "string \<Rightarrow> uint \<times> error option" where
  "byteArrayToUint arr = (case Atoi arr of Inl err \<Rightarrow> (0, Some err) | Inr num \<Rightarrow> (num, None))"

definition millisecond :: int64 where
  "millisecond = 1000000"

definition min_uint :: "uint \<Rightarrow> uint \<Rightarrow> uint" where
  "min_uint a b = (if a < b then a else b)"

subsection \<open>The bucket\<close>

text \<open>The fields of the redis \<^verbatim>\<open>bucket\<close>, without the pool (see above); they carry the
  prefix \<open>r_\<close> to keep them apart from the fields of the memory bucket.\<close>

record redis_bucket =
  name :: string
  r_capacity :: uint
  r_remaining :: uint
  r_reset :: Time
  r_rate :: Duration

definition State :: "redis_bucket \<Rightarrow> BucketState" where
  "State b = \<lparr>Capacity = r_capacity b, Remaining = r_remaining b, Reset = r_reset b\<rparr>"

text \<open>\<^verbatim>\<open>updateOldReset\<close> reads the clock twice: \<open>now1\<close> for the comparison of the seconds,
  \<open>now2\<close> for the new \<^verbatim>\<open>reset\<close>.\<close>

definition updateOldReset ::
  "'c Do \<Rightarrow> redis_bucket \<Rightarrow> Time \<Rightarrow> Time \<Rightarrow> 'c \<Rightarrow> error option outcome \<times> redis_bucket \<times> 'c" where
  "updateOldReset Do b now1 now2 c =
     (if Unix now1 < Unix (r_reset b) then (Return None, b, c)
      else (case Do c (PTTL (name b)) of
              (Inl err, c') \<Rightarrow> (Return (Some err), b, c')
            | (Inr ttl, c') \<Rightarrow>
                (case ttl of
                   RInt64 n \<Rightarrow> (Return None, b\<lparr>r_reset := Time_Add now2 (n * millisecond)\<rparr>, c')
                 | _ \<Rightarrow> (Panic, b, c'))))"

text \<open>
  \<^verbatim>\<open>Add\<close> calls \<^verbatim>\<open>updateOldReset\<close> at most once on every path, and reads the clock
  nowhere else: \<open>now1\<close> and \<open>now2\<close> are the readings of that call. The result is what
  the call returns (or its panic), the bucket and the store as the call leaves them.
\<close>

definition redis_Add ::
  "'c Do \<Rightarrow> redis_bucket \<Rightarrow> uint \<Rightarrow> Time \<Rightarrow> Time \<Rightarrow> 'c
     \<Rightarrow> (BucketState \<times> error option) outcome \<times> redis_bucket \<times> 'c" where
  "redis_Add Do b0 amount now1 now2 c0 =
     (case Do c0 (GET (name b0)) of
        (Inl err, c1) \<Rightarrow> (Return (State b0, Some err), b0, c1)
      | (Inr count, c1) \<Rightarrow>
          (case (case count of
                   RNil \<Rightarrow> Inr (b0\<lparr>r_remaining := r_capacity b0\<rparr>)
                 | RBytes arr \<Rightarrow>
                     (case byteArrayToUint arr of
                        (num, Some err) \<Rightarrow> Inl (Return (State b0, Some err))
                      | (num, None) \<Rightarrow>
                          Inr (b0\<lparr>r_remaining := r_capacity b0 - min_uint num (r_capacity b0)\<rparr>))
                 | _ \<Rightarrow> Inl Panic) of
             Inl out \<Rightarrow> (out, b0, c1)
           | Inr b1 \<Rightarrow>
               if r_remaining b1 < amount
               then (case updateOldReset Do b1 now1 now2 c1 of
                       (Panic, b2, c2) \<Rightarrow> (Panic, b2, c2)
                     | (Return _, b2, c2) \<Rightarrow> (Return (State b2, Some ErrorFull), b2, c2))
               else
                 (let expiry = (word_of_int (sint (r_rate b1) sdiv sint millisecond) :: int64)
                  in case Do c1 (INCRBY (name b1) amount) of
                       (Inl err, c2) \<Rightarrow> (Return (State b1, Some err), b1, c2)
                     | (Inr count', c2) \<Rightarrow>
                         (case count' of
                            RInt64 n \<Rightarrow>
                              (case (if n = amount
                                     then (case Do c2 (PEXPIRE (name b1) expiry) of
                                             (Inl err, c3) \<Rightarrow> (Some err, c3)
                                           | (Inr _, c3) \<Rightarrow> (None, c3))
                                     else (None, c2)) of
                                 (Some err, c3) \<Rightarrow> (Return (State b1, Some err), b1, c3)
                               | (None, c3) \<Rightarrow>
                                   (case updateOldReset Do b1 now1 now2 c3 of
                                      (Panic, b2, c4) \<Rightarrow> (Panic, b2, c4)
                                    | (Return _, b2, c4) \<Rightarrow>
                                        (let b3 = b2\<lparr>r_remaining :=
                                                   r_capacity b2 - min_uint n (r_capacity b2)\<rparr>
                                         in (Return (State b3, None), b3, c4))))
                          | _ \<Rightarrow> (Panic, b1, c2)))))"

text \<open>\<^verbatim>\<open>Create\<close> reads the clock once, for the \<^verbatim>\<open>reset\<close> of the bucket it builds. It
  returns the new bucket or the error.\<close>

definition redis_Create ::
  "'c Do \<Rightarrow> string \<Rightarrow> uint \<Rightarrow> Duration \<Rightarrow> Time \<Rightarrow> 'c
     \<Rightarrow> (redis_bucket option \<times> error option) outcome \<times> 'c" where
  "redis_Create Do name' capacity' rate' now c0 =
     (case Do c0 (GET name') of
        (Inl err, c1) \<Rightarrow> (Return (None, Some err), c1)
      | (Inr count, c1) \<Rightarrow>
          (case count of
             RNil \<Rightarrow>
               (Return (Some \<lparr>name = name', r_capacity = capacity', r_remaining = capacity',
                               r_reset = Time_Add now rate', r_rate = rate'\<rparr>, None), c1)
           | RBytes arr \<Rightarrow>
               (case byteArrayToUint arr of
                  (num, Some err) \<Rightarrow> (Return (None, Some err), c1)
                | (num, None) \<Rightarrow>
                    (case Do c1 (PTTL name') of
                       (Inl err, c2) \<Rightarrow> (Return (None, Some err), c2)
                     | (Inr ttl, c2) \<Rightarrow>
                         (case ttl of
                            RInt64 n \<Rightarrow>
                              (Return (Some \<lparr>name = name', r_capacity = capacity',
                                              r_remaining = capacity' - min_uint capacity' num,
                                              r_reset = Time_Add now (n * millisecond),
                                              r_rate = rate'\<rparr>, None), c2)
                          | _ \<Rightarrow> (Panic, c2))))
           | _ \<Rightarrow> (Panic, c1)))"

subsection \<open>Observing the commands\<close>

text \<open>
  \<open>recording Do\<close> is the connection \<open>Do\<close> that also keeps the list of the commands it
  was sent, oldest first. It answers as \<open>Do\<close> does, so a run over it is a run over \<open>Do\<close>
  with its commands written down.
\<close>

definition recording :: "'c Do \<Rightarrow> ('c \<times> cmd list) Do" where
  "recording Do cl x = (case Do (fst cl) x of (r, c') \<Rightarrow> (r, (c', snd cl @ [x])))"

text \<open>A store that answers every command from a fixed table and never changes.\<close>

definition fixed_Do :: "(cmd \<Rightarrow> error + reply) Do" where
  "fixed_Do c x = (c x, c)"

text \<open>The replies of a store in which no key exists: \<^verbatim>\<open>GET\<close> finds nothing, \<^verbatim>\<open>INCRBY\<close>
  creates the counter with the amount, \<^verbatim>\<open>PEXPIRE\<close> reports one key changed and the key
  then has \<open>ttl\<close> milliseconds to live.\<close>

fun fresh_key :: "int64 \<Rightarrow> cmd \<Rightarrow> error + reply" where
  "fresh_key ttl (GET k) = Inr RNil"
| "fresh_key ttl (INCRBY k n) = Inr (RInt64 n)"
| "fresh_key ttl (PEXPIRE k ms) = Inr (RInt64 1)"
| "fresh_key ttl (PTTL k) = Inr (RInt64 ttl)"

text \<open>The replies of a store in which the key holds the text \<open>v\<close> with \<open>ttl\<close> milliseconds
  to live; \<^verbatim>\<open>INCRBY\<close> answers the sum when \<open>v\<close> is an integer and is refused otherwise.\<close>

fun held_key :: "string \<Rightarrow> int64 \<Rightarrow> cmd \<Rightarrow> error + reply" where
  "held_key v ttl (GET k) = Inr (RBytes v)"
| "held_key v ttl (INCRBY k n) =
     (case Atoi v of
        Inl err \<Rightarrow> Inl (ConnError ''ERR value is not an integer or out of range'')
      | Inr m \<Rightarrow> Inr (RInt64 (m + n)))"
| "held_key v ttl (PEXPIRE k ms) = Inr (RInt64 1)"
| "held_key v ttl (PTTL k) = Inr (RInt64 ttl)"

section \<open>Runs and predicates used in the statements\<close>

text \<open>
  A run of \<^verbatim>\<open>Add\<close> calls on one memory bucket: each call is its amount and its three
  clock readings. The run returns the bucket it leaves and the sum, as a natural number,
  of the amounts of the calls that returned no error.
\<close>

fun Adds :: "bucket \<Rightarrow> (uint \<times> Time \<times> Time \<times> Time) list \<Rightarrow> bucket \<times> nat" where
  "Adds b [] = (b, 0)"
| "Adds b ((amount, now1, now2, now3) # calls) =
     (case memory_Add b amount now1 now2 now3 of
        ((st, err), b') \<Rightarrow>
          (case Adds b' calls of
             (b'', accepted) \<Rightarrow> (b'', (if err = None then unat amount else 0) + accepted)))"

text \<open>The answer to a command is an error or an integer, as the store answers
  \<^verbatim>\<open>PTTL\<close> and \<^verbatim>\<open>INCRBY\<close>.\<close>

definition int_reply :: "error + reply \<Rightarrow> bool" where
  "int_reply r = (case r of Inl err \<Rightarrow> True | Inr (RInt64 n) \<Rightarrow> True | Inr _ \<Rightarrow> False)"

text \<open>The invariant of the data model: \<^verbatim>\<open>remaining\<close> is at most \<^verbatim>\<open>capacity\<close> (it is
  an unsigned number, so it is at least zero), for a memory bucket, for every bucket of
  the store of the memory backend, and for a redis bucket.\<close>

definition bucket_inv :: "bucket \<Rightarrow> bool" where
  "bucket_inv b = (remaining b \<le> capacity b)"

definition Storage_inv :: "Storage \<Rightarrow> bool" where
  "Storage_inv s = (\<forall>b \<in> set (heap s). bucket_inv b)"

definition redis_bucket_inv :: "redis_bucket \<Rightarrow> bool" where
  "redis_bucket_inv b = (r_remaining b \<le> r_capacity b)"

text \<open>
  The \<^verbatim>\<open>remaining\<close> that the redis \<^verbatim>\<open>Add\<close> computes from the reply to its \<^verbatim>\<open>GET\<close>
  before it compares the amount: the capacity for an absent key, the capacity less the
  clamped counter for a counter that parses, and none for a reply on which \<^verbatim>\<open>Add\<close>
  stops (a text that does not parse, a reply of another type).
\<close>

definition projected :: "uint \<Rightarrow> reply \<Rightarrow> uint option" where
  "projected cap count =
     (case count of
        RNil \<Rightarrow> Some cap
      | RBytes arr \<Rightarrow>
          (case byteArrayToUint arr of
             (num, Some err) \<Rightarrow> None
           | (num, None) \<Rightarrow> Some (cap - min_uint num cap))
      | _ \<Rightarrow> None)"

text \<open>The \<^verbatim>\<open>expiry\<close> of \<^verbatim>\<open>Add\<close>: the rate in milliseconds, the division truncating.\<close>

definition expiry_of :: "Duration \<Rightarrow> int64" where
  "expiry_of d = word_of_int (sint d sdiv 1000000)"

section \<open>The memory backend: rollover, refusal, one window\<close>

lemma memory_Add_full:
  assumes "r = (if reset b < now2 then capacity b else remaining b)"
      and "rs = (if reset b < now2 then Time_Add now3 (rate b) else reset b)"
      and "r < amount"
  shows "memory_Add b amount now1 now2 now3 =
           ((\<lparr>Capacity = capacity b, Remaining = r, Reset = rs\<rparr>, Some ErrorFull),
            b\<lparr>updated := now1, reset := rs, remaining := r\<rparr>)"
  using assms by (auto simp add: memory_Add_def Let_def After_def)

lemma memory_Add_within:
  assumes "\<not> reset b < now2"
  shows "reset (snd (memory_Add b amount now1 now2 now3)) = reset b"
    and "capacity (snd (memory_Add b amount now1 now2 now3)) = capacity b"
    and "unat (remaining (snd (memory_Add b amount now1 now2 now3)))
           + (if snd (fst (memory_Add b amount now1 now2 now3)) = None then unat amount else 0)
         = unat (remaining b)"
  using assms
  by (auto simp add: memory_Add_def Let_def After_def unat_sub word_le_nat_alt not_less)

lemma memory_Add_roll:
  assumes "reset b < now2"
  shows "reset (snd (memory_Add b amount now1 now2 now3)) = Time_Add now3 (rate b)"
    and "capacity (snd (memory_Add b amount now1 now2 now3)) = capacity b"
    and "unat (remaining (snd (memory_Add b amount now1 now2 now3)))
           + (if snd (fst (memory_Add b amount now1 now2 now3)) = None then unat amount else 0)
         = unat (capacity b)"
  using assms
  by (auto simp add: memory_Add_def Let_def After_def unat_sub word_le_nat_alt not_less)

lemma Adds_within:
  "\<forall>(amount, now1, now2, now3) \<in> set calls. \<not> reset b < now2 \<Longrightarrow>
   reset (fst (Adds b calls)) = reset b \<and>
   capacity (fst (Adds b calls)) = capacity b \<and>
   unat (remaining (fst (Adds b calls))) + snd (Adds b calls) = unat (remaining b)"
proof (induction calls arbitrary: b)
  case Nil
  then show ?case by simp
next
  case (Cons call calls)
  obtain amount now1 now2 now3 where call: "call = (amount, now1, now2, now3)"
    by (cases call) auto
  obtain st err b' where step: "memory_Add b amount now1 now2 now3 = ((st, err), b')"
    by (metis surj_pair)
  from Cons.prems call have now: "\<not> reset b < now2" by simp
  from memory_Add_within [OF now, of amount now1 now3] step
  have b': "reset b' = reset b" "capacity b' = capacity b"
    "unat (remaining b') + (if err = None then unat amount else 0) = unat (remaining b)"
    by simp_all
  from Cons.prems b' have "\<forall>(amount, now1, now2, now3) \<in> set calls. \<not> reset b' < now2"
    by simp
  from Cons.IH [OF this] b' show ?case
    by (auto simp add: call step split: prod.splits if_splits)
qed

lemma Adds_roll_first:
  assumes roll: "reset b < now2"
      and rest: "\<forall>(amount', now1', now2', now3') \<in> set calls. \<not> Time_Add now3 (rate b) < now2'"
  shows "unat (remaining (fst (Adds b ((amount, now1, now2, now3) # calls))))
           + snd (Adds b ((amount, now1, now2, now3) # calls))
         = unat (capacity (fst (Adds b ((amount, now1, now2, now3) # calls))))"
proof -
  obtain st err b' where step: "memory_Add b amount now1 now2 now3 = ((st, err), b')"
    by (metis surj_pair)
  from memory_Add_roll [OF roll, of amount now1 now3] step
  have b': "reset b' = Time_Add now3 (rate b)" "capacity b' = capacity b"
    "unat (remaining b') + (if err = None then unat amount else 0) = unat (capacity b)"
    by simp_all
  from rest b' have "\<forall>(amount', now1', now2', now3') \<in> set calls. \<not> reset b' < now2'"
    by simp
  from Adds_within [OF this] b' show ?thesis
    by (auto simp add: step split: prod.splits if_splits)
qed

text \<open>
  C1, as the code has it. \<^verbatim>\<open>Add\<close> rolls the window forward when the clock is strictly
  after \<^verbatim>\<open>reset\<close>: then \<^verbatim>\<open>reset\<close> becomes the clock plus \<^verbatim>\<open>rate\<close> and the consume
  attempt runs on a \<^verbatim>\<open>remaining\<close> equal to \<^verbatim>\<open>capacity\<close>. When the clock is at or before
  \<^verbatim>\<open>reset\<close>, \<^verbatim>\<open>reset\<close> is kept and the consume attempt runs on the old \<^verbatim>\<open>remaining\<close>.
\<close>

theorem memory_Add_rollover:
  "(reset b < now2 \<longrightarrow>
      reset (snd (memory_Add b amount now1 now2 now3)) = Time_Add now3 (rate b) \<and>
      remaining (snd (memory_Add b amount now1 now2 now3)) =
        (if capacity b < amount then capacity b else capacity b - amount)) \<and>
   (\<not> reset b < now2 \<longrightarrow>
      reset (snd (memory_Add b amount now1 now2 now3)) = reset b \<and>
      remaining (snd (memory_Add b amount now1 now2 now3)) =
        (if remaining b < amount then remaining b else remaining b - amount))"
  by (simp add: memory_Add_def Let_def After_def)

theorem memory_Add_rollover_witness:
  "reset (snd (memory_Add \<lparr>capacity = 10, remaining = 3, reset = 100, rate = 50, updated = 0\<rparr>
                 4 101 101 101)) = 151 \<and>
   remaining (snd (memory_Add \<lparr>capacity = 10, remaining = 3, reset = 100, rate = 50, updated = 0\<rparr>
                     4 101 101 101)) = 6 \<and>
   reset (snd (memory_Add \<lparr>capacity = 10, remaining = 3, reset = 100, rate = 50, updated = 0\<rparr>
                 2 99 99 99)) = 100 \<and>
   remaining (snd (memory_Add \<lparr>capacity = 10, remaining = 3, reset = 100, rate = 50, updated = 0\<rparr>
                     2 99 99 99)) = 1"
  using memory_Add_rollover
          [of "\<lparr>capacity = 10, remaining = 3, reset = 100, rate = 50, updated = 0\<rparr>" 101 4 101 101]
        memory_Add_rollover
          [of "\<lparr>capacity = 10, remaining = 3, reset = 100, rate = 50, updated = 0\<rparr>" 99 2 99 99]
  by (simp add: Time_Add_def)

text \<open>
  C1 as stated fails when the clock equals \<^verbatim>\<open>reset\<close>: the window has elapsed in the
  claim's sense (\<open>now \<ge> reset\<close>), and \<^verbatim>\<open>Add\<close> sets neither \<^verbatim>\<open>reset\<close> to the clock plus
  \<^verbatim>\<open>rate\<close> nor \<^verbatim>\<open>remaining\<close> to \<^verbatim>\<open>capacity\<close>.
\<close>

theorem memory_Add_at_reset_counterexample:
  "reset \<lparr>capacity = 10, remaining = 3, reset = 100, rate = 50, updated = 0\<rparr> \<le> (100 :: Time) \<and>
   reset (snd (memory_Add \<lparr>capacity = 10, remaining = 3, reset = 100, rate = 50, updated = 0\<rparr>
                 0 100 100 100)) \<noteq> Time_Add 100 50 \<and>
   remaining (snd (memory_Add \<lparr>capacity = 10, remaining = 3, reset = 100, rate = 50, updated = 0\<rparr>
                     0 100 100 100)) \<noteq> 10"
  by (simp add: memory_Add_def Let_def After_def Time_Add_def)

text \<open>
  C3. In a run of \<^verbatim>\<open>Add\<close> calls on one memory bucket within one window, after each
  call \<^verbatim>\<open>remaining\<close> plus the sum of the accepted amounts equals \<^verbatim>\<open>capacity\<close>, the sum
  taken in the natural numbers, so that \<^verbatim>\<open>remaining\<close> never wraps below zero. The
  window is one that starts with the bucket full and in which no call of the run is
  after \<^verbatim>\<open>reset\<close> (first part), or the one that the first call of the run opens by
  rolling over, the later calls not being after the new \<^verbatim>\<open>reset\<close> (second part).
  \<open>take n calls\<close> is the run up to its \<open>n\<close>-th call.
\<close>

theorem Adds_one_window:
  "(remaining b = capacity b \<and>
    (\<forall>(amount, now1, now2, now3) \<in> set calls. \<not> reset b < now2) \<longrightarrow>
      unat (remaining (fst (Adds b (take n calls)))) + snd (Adds b (take n calls))
        = unat (capacity (fst (Adds b (take n calls))))) \<and>
   (reset b < now2 \<and>
    (\<forall>(amount', now1', now2', now3') \<in> set calls. \<not> Time_Add now3 (rate b) < now2') \<longrightarrow>
      unat (remaining (fst (Adds b ((amount, now1, now2, now3) # take n calls))))
        + snd (Adds b ((amount, now1, now2, now3) # take n calls))
        = unat (capacity (fst (Adds b ((amount, now1, now2, now3) # take n calls)))))"
proof (intro conjI impI)
  assume a: "remaining b = capacity b \<and>
    (\<forall>(amount, now1, now2, now3) \<in> set calls. \<not> reset b < now2)"
  then have "\<forall>(amount, now1, now2, now3) \<in> set (take n calls). \<not> reset b < now2"
    by (meson in_set_takeD)
  from Adds_within [OF this] a
  show "unat (remaining (fst (Adds b (take n calls)))) + snd (Adds b (take n calls))
        = unat (capacity (fst (Adds b (take n calls))))"
    by simp
next
  assume a: "reset b < now2 \<and>
    (\<forall>(amount', now1', now2', now3') \<in> set calls. \<not> Time_Add now3 (rate b) < now2')"
  then have "\<forall>(amount', now1', now2', now3') \<in> set (take n calls).
               \<not> Time_Add now3 (rate b) < now2'"
    by (meson in_set_takeD)
  with a show "unat (remaining (fst (Adds b ((amount, now1, now2, now3) # take n calls))))
        + snd (Adds b ((amount, now1, now2, now3) # take n calls))
        = unat (capacity (fst (Adds b ((amount, now1, now2, now3) # take n calls))))"
    by (intro Adds_roll_first) simp_all
qed

theorem Adds_one_window_witness:
  "remaining (fst (Adds \<lparr>capacity = 10, remaining = 10, reset = 100, rate = 50, updated = 0\<rparr>
                     [(4, 1, 1, 1), (7, 2, 2, 2), (6, 3, 3, 3)])) = 0 \<and>
   snd (Adds \<lparr>capacity = 10, remaining = 10, reset = 100, rate = 50, updated = 0\<rparr>
          [(4, 1, 1, 1), (7, 2, 2, 2), (6, 3, 3, 3)]) = 10 \<and>
   remaining (fst (Adds \<lparr>capacity = 10, remaining = 2, reset = 100, rate = 50, updated = 0\<rparr>
                     [(3, 101, 101, 101), (8, 120, 120, 120), (5, 151, 151, 151)])) = 2 \<and>
   snd (Adds \<lparr>capacity = 10, remaining = 2, reset = 100, rate = 50, updated = 0\<rparr>
          [(3, 101, 101, 101), (8, 120, 120, 120), (5, 151, 151, 151)]) = 8"
  using Adds_one_window
          [of "\<lparr>capacity = 10, remaining = 10, reset = 100, rate = 50, updated = 0\<rparr>"
              "[(4, 1, 1, 1), (7, 2, 2, 2), (6, 3, 3, 3)]" 3 0 0 0 0]
        Adds_one_window
          [of "\<lparr>capacity = 10, remaining = 2, reset = 100, rate = 50, updated = 0\<rparr>"
              "[(8, 120, 120, 120), (5, 151, 151, 151)]" 2 101 101 3 101]
  by (simp add: memory_Add_def Let_def After_def Time_Add_def)

section \<open>The memory backend: realignment\<close>

lemma sint_neg_rate:
  fixes d :: Duration
  assumes "sint d \<noteq> - (2 ^ 63)"
  shows "sint (- d) = - sint d"
proof -
  have "sint d < 2 ^ 63" "- (2 ^ 63) \<le> sint d"
    using sint_lt [of d] sint_ge [of d] by simp_all
  with assms have "- (2 ^ 63) \<le> - sint d" "- sint d < 2 ^ 63" by simp_all
  then have "signed_take_bit 63 (- sint d) = - sint d"
    by (simp add: signed_take_bit_int_eq_self)
  then show ?thesis by (simp add: sint_word_ariths)
qed

text \<open>
  C7, as the code has it. In \<^verbatim>\<open>AddWithTime\<close>, for every rate but the least \<^verbatim>\<open>int64\<close>
  (\<open>- 2 ^ 63\<close> nanoseconds), a supplied time earlier than \<^verbatim>\<open>reset - rate\<close> realigns the
  window to start at that time: \<^verbatim>\<open>reset\<close> becomes the supplied time plus \<^verbatim>\<open>rate\<close>. For
  every rate, a supplied time from \<^verbatim>\<open>reset - rate\<close> to \<^verbatim>\<open>reset\<close>, both included, leaves
  \<^verbatim>\<open>reset\<close> unchanged.
\<close>

theorem AddWithTime_realign:
  "(sint (rate b) \<noteq> - (2 ^ 63) \<and> t < reset b - sint (rate b) \<longrightarrow>
      reset (snd (AddWithTime b amount t now1)) = Time_Add t (rate b)) \<and>
   (reset b - sint (rate b) \<le> t \<and> t \<le> reset b \<longrightarrow>
      reset (snd (AddWithTime b amount t now1)) = reset b)"
proof (intro conjI impI)
  assume a: "sint (rate b) \<noteq> - (2 ^ 63) \<and> t < reset b - sint (rate b)"
  then have "sint (- rate b) = - sint (rate b)" by (simp add: sint_neg_rate)
  with a show "reset (snd (AddWithTime b amount t now1)) = Time_Add t (rate b)"
    by (simp add: AddWithTime_def Let_def After_def Before_def Time_Add_def)
next
  assume a: "reset b - sint (rate b) \<le> t \<and> t \<le> reset b"
  show "reset (snd (AddWithTime b amount t now1)) = reset b"
  proof (cases "sint (rate b) = - (2 ^ 63)")
    case True
    with a show ?thesis by simp
  next
    case False
    then have "sint (- rate b) = - sint (rate b)" by (rule sint_neg_rate)
    with a show ?thesis
      by (simp add: AddWithTime_def Let_def After_def Before_def Time_Add_def)
  qed
qed

theorem AddWithTime_realign_witness:
  "reset (snd (AddWithTime \<lparr>capacity = 10, remaining = 3, reset = 100, rate = 50, updated = 0\<rparr>
                 1 20 7)) = 70 \<and>
   reset (snd (AddWithTime \<lparr>capacity = 10, remaining = 3, reset = 100, rate = 50, updated = 0\<rparr>
                 1 50 7)) = 100 \<and>
   reset (snd (AddWithTime \<lparr>capacity = 10, remaining = 3, reset = 100, rate = 50, updated = 0\<rparr>
                 1 100 7)) = 100"
  using AddWithTime_realign
          [where b = "\<lparr>capacity = 10, remaining = 3, reset = 100, rate = 50, updated = 0\<rparr>"
             and t = 20 and amount = 1 and ?now1.0 = 7]
        AddWithTime_realign
          [where b = "\<lparr>capacity = 10, remaining = 3, reset = 100, rate = 50, updated = 0\<rparr>"
             and t = 50 and amount = 1 and ?now1.0 = 7]
        AddWithTime_realign
          [where b = "\<lparr>capacity = 10, remaining = 3, reset = 100, rate = 50, updated = 0\<rparr>"
             and t = 100 and amount = 1 and ?now1.0 = 7]
  by (simp add: Time_Add_def)

text \<open>
  C7 as stated fails at the least \<^verbatim>\<open>int64\<close> rate, where \<^verbatim>\<open>-1 * b.rate\<close> wraps around to
  the rate itself: with \<^verbatim>\<open>reset\<close> at 100, the supplied time 20 is earlier than
  \<^verbatim>\<open>reset - rate\<close>, and \<^verbatim>\<open>AddWithTime\<close> leaves \<^verbatim>\<open>reset\<close> at 100, which is not the
  supplied time plus \<^verbatim>\<open>rate\<close>.
\<close>

theorem AddWithTime_least_rate_counterexample:
  "(20 :: Time) < reset \<lparr>capacity = 10, remaining = 3, reset = 100,
                          rate = - 9223372036854775808, updated = 0\<rparr>
                  - sint (rate \<lparr>capacity = 10, remaining = 3, reset = 100,
                                 rate = - 9223372036854775808, updated = 0\<rparr>) \<and>
   reset (snd (AddWithTime \<lparr>capacity = 10, remaining = 3, reset = 100,
                             rate = - 9223372036854775808, updated = 0\<rparr> 1 20 7)) = 100 \<and>
   Time_Add 20 (rate \<lparr>capacity = 10, remaining = 3, reset = 100,
                       rate = - 9223372036854775808, updated = 0\<rparr>) \<noteq> 100"
  by (simp add: AddWithTime_def Let_def After_def Before_def Time_Add_def)

section \<open>The memory backend: activity and the invariant\<close>

lemma updated_memory_Add: "updated (snd (memory_Add b amount now1 now2 now3)) = now1"
  by (simp add: memory_Add_def Let_def)

lemma updated_AddWithTime: "updated (snd (AddWithTime b amount t now1)) = now1"
  by (simp add: AddWithTime_def Let_def)

lemma sint_neg_Hour: "sint (- Hour) = - 3600000000000"
  by (simp add: Hour_def)

lemma Clean_keeps:
  "buckets s k = Some p \<Longrightarrow>
   buckets (Clean s nm now) k = (if updated (heap s ! p) < now k - 3600000000000 then None else Some p)"
  by (simp add: Clean_def Before_def Time_Add_def sint_neg_Hour)

lemma consume_le:
  fixes r :: uint
  assumes "r \<le> cap" "\<not> r < amount"
  shows "r - amount \<le> cap"
proof -
  from assms(2) have "amount \<le> r" by simp
  then have "r - amount \<le> r" by (rule word_sub_le)
  with assms(1) show ?thesis by simp
qed

lemma bucket_inv_memory_Add:
  "bucket_inv b \<Longrightarrow> bucket_inv (snd (memory_Add b amount now1 now2 now3))"
  by (simp add: bucket_inv_def memory_Add_def Let_def consume_le word_sub_le)

lemma bucket_inv_AddWithTime:
  "bucket_inv b \<Longrightarrow> bucket_inv (snd (AddWithTime b amount t now1))"
  by (simp add: bucket_inv_def AddWithTime_def Let_def consume_le word_sub_le)


lemma Storage_inv_New: "Storage_inv memory_New"
  by (simp add: Storage_inv_def memory_New_def)

lemma Storage_inv_Create:
  "Storage_inv s \<Longrightarrow> Storage_inv (snd (memory_Create s nm cap' rate' now1 now2))"
  by (auto simp add: Storage_inv_def memory_Create_def Let_def bucket_inv_def split: option.splits)

lemma Storage_inv_update:
  assumes "Storage_inv s" "bucket_inv b"
  shows "Storage_inv (s\<lparr>heap := (heap s)[p := b]\<rparr>)"
proof -
  have "set ((heap s)[p := b]) \<subseteq> insert b (set (heap s))"
    by (rule set_update_subset_insert)
  with assms show ?thesis by (auto simp add: Storage_inv_def)
qed

lemma Storage_inv_call_Add:
  assumes "Storage_inv s" "p < length (heap s)"
  shows "Storage_inv (snd (call_Add s p amount now1 now2 now3))"
proof -
  from assms have "bucket_inv (heap s ! p)" by (simp add: Storage_inv_def)
  from Storage_inv_update [OF assms(1) bucket_inv_memory_Add [OF this]]
  show ?thesis by (simp add: call_Add_def split_beta)
qed

lemma Storage_inv_call_AddWithTime:
  assumes "Storage_inv s" "p < length (heap s)"
  shows "Storage_inv (snd (call_AddWithTime s p amount t now1))"
proof -
  from assms have "bucket_inv (heap s ! p)" by (simp add: Storage_inv_def)
  from Storage_inv_update [OF assms(1) bucket_inv_AddWithTime [OF this]]
  show ?thesis by (simp add: call_AddWithTime_def split_beta)
qed

lemma Storage_inv_Clean: "Storage_inv s \<Longrightarrow> Storage_inv (Clean s nm now)"
  by (simp add: Storage_inv_def Clean_def)

section \<open>The redis backend: the paths of Add\<close>

lemma min_uint_le: "min_uint a b \<le> b"
  by (auto simp add: min_uint_def)

lemma projected_le: "cap - min_uint num cap \<le> (cap :: uint)"
  by (simp add: word_sub_le min_uint_le)

lemma projected_le': "cap - min_uint cap num \<le> (cap :: uint)"
  by (simp add: word_sub_le min_uint_def)

lemma updateOldReset_frame:
  "updateOldReset Do b now1 now2 c = (out, b', c') \<Longrightarrow>
   r_remaining b' = r_remaining b \<and> r_capacity b' = r_capacity b \<and> name b' = name b \<and>
   r_rate b' = r_rate b"
  by (auto simp add: updateOldReset_def split: if_splits prod.splits sum.splits reply.splits)

lemma projected_le_cap: "projected cap count = Some r \<Longrightarrow> r \<le> cap"
  by (auto simp add: projected_def projected_le split: reply.splits prod.splits option.splits)

lemma redis_Add_GET_error:
  "Do c (GET (name b)) = (Inl err, c1) \<Longrightarrow>
   redis_Add Do b amount now1 now2 c = (Return (State b, Some err), b, c1)"
  by (simp add: redis_Add_def)

lemma redis_Add_parse_error:
  "Do c (GET (name b)) = (Inr (RBytes arr), c1) \<Longrightarrow> Atoi arr = Inl err \<Longrightarrow>
   redis_Add Do b amount now1 now2 c = (Return (State b, Some err), b, c1)"
  by (simp add: redis_Add_def byteArrayToUint_def)

lemma redis_Add_GET_panic:
  "Do c (GET (name b)) = (Inr count, c1) \<Longrightarrow> count = RInt64 n \<or> count = ROther \<Longrightarrow>
   redis_Add Do b amount now1 now2 c = (Panic, b, c1)"
  by (auto simp add: redis_Add_def)

lemma projected_cases:
  "projected cap count = None \<Longrightarrow>
   (\<exists>n. count = RInt64 n) \<or> count = ROther \<or> (\<exists>arr err. count = RBytes arr \<and> Atoi arr = Inl err)"
  by (auto simp add: projected_def byteArrayToUint_def split: reply.splits sum.splits)

lemma projected_Some:
  "projected cap count = Some r \<Longrightarrow>
   count = RNil \<and> r = cap \<or>
   (\<exists>arr num. count = RBytes arr \<and> byteArrayToUint arr = (num, None) \<and>
               r = cap - min_uint num cap)"
  by (auto simp add: projected_def split: reply.splits prod.splits option.splits)

lemma redis_Add_full_path:
  assumes "Do c (GET (name b)) = (Inr count, c1)"
      and "projected (r_capacity b) count = Some r"
      and "r < amount"
      and "updateOldReset Do (b\<lparr>r_remaining := r\<rparr>) now1 now2 c1 = (out, b2, c2)"
  shows "redis_Add Do b amount now1 now2 c =
           (case out of Panic \<Rightarrow> (Panic, b2, c2)
                      | Return e \<Rightarrow> (Return (State b2, Some ErrorFull), b2, c2))"
  using projected_Some [OF assms(2)] assms(1,3,4)
  by (elim disjE exE conjE) (simp_all add: redis_Add_def split: outcome.splits)

lemma redis_Add_INCRBY_error:
  assumes "Do c (GET (name b)) = (Inr count, c1)"
      and "projected (r_capacity b) count = Some r"
      and "\<not> r < amount"
      and "Do c1 (INCRBY (name b) amount) = (Inl err, c2)"
  shows "redis_Add Do b amount now1 now2 c =
           (Return (State (b\<lparr>r_remaining := r\<rparr>), Some err), b\<lparr>r_remaining := r\<rparr>, c2)"
  using projected_Some [OF assms(2)] assms(1,3,4)
  by (elim disjE exE conjE) (simp_all add: redis_Add_def)

lemma redis_Add_INCRBY_panic:
  assumes "Do c (GET (name b)) = (Inr count, c1)"
      and "projected (r_capacity b) count = Some r"
      and "\<not> r < amount"
      and "Do c1 (INCRBY (name b) amount) = (Inr count', c2)"
      and "count' = RNil \<or> (\<exists>arr. count' = RBytes arr) \<or> count' = ROther"
  shows "redis_Add Do b amount now1 now2 c = (Panic, b\<lparr>r_remaining := r\<rparr>, c2)"
  using projected_Some [OF assms(2)] assms(1,3,4,5)
  by (elim disjE exE conjE) (simp_all add: redis_Add_def)

lemma redis_Add_PEXPIRE_error:
  assumes "Do c (GET (name b)) = (Inr count, c1)"
      and "projected (r_capacity b) count = Some r"
      and "\<not> r < amount"
      and "Do c1 (INCRBY (name b) amount) = (Inr (RInt64 amount), c2)"
      and "Do c2 (PEXPIRE (name b) (expiry_of (r_rate b))) = (Inl err, c3)"
  shows "redis_Add Do b amount now1 now2 c =
           (Return (State (b\<lparr>r_remaining := r\<rparr>), Some err), b\<lparr>r_remaining := r\<rparr>, c3)"
  using projected_Some [OF assms(2)] assms(1,3,4,5)
  by (elim disjE exE conjE) (simp_all add: redis_Add_def expiry_of_def millisecond_def)

lemma redis_Add_done:
  assumes "Do c (GET (name b)) = (Inr count, c1)"
      and "projected (r_capacity b) count = Some r"
      and "\<not> r < amount"
      and "Do c1 (INCRBY (name b) amount) = (Inr (RInt64 n), c2)"
      and "n \<noteq> amount \<and> c3 = c2 \<or>
           n = amount \<and> (\<exists>x. Do c2 (PEXPIRE (name b) (expiry_of (r_rate b))) = (Inr x, c3))"
      and "updateOldReset Do (b\<lparr>r_remaining := r\<rparr>) now1 now2 c3 = (out, b2, c4)"
  shows "redis_Add Do b amount now1 now2 c =
           (case out of
              Panic \<Rightarrow> (Panic, b2, c4)
            | Return e \<Rightarrow>
                (Return (State (b2\<lparr>r_remaining := r_capacity b2 - min_uint n (r_capacity b2)\<rparr>), None),
                 b2\<lparr>r_remaining := r_capacity b2 - min_uint n (r_capacity b2)\<rparr>, c4))"
  using projected_Some [OF assms(2)] assms(1,3,4,5,6)
  by (elim disjE exE conjE)
     (simp_all add: redis_Add_def expiry_of_def millisecond_def Let_def split: outcome.splits)

lemma redis_Add_bucket:
  "r_capacity (fst (snd (redis_Add Do b amount now1 now2 c))) = r_capacity b \<and>
   (r_remaining (fst (snd (redis_Add Do b amount now1 now2 c))) = r_remaining b \<or>
    r_remaining (fst (snd (redis_Add Do b amount now1 now2 c))) \<le> r_capacity b)"
  (is "?P (redis_Add Do b amount now1 now2 c)")
proof -
  obtain g c1 where get: "Do c (GET (name b)) = (g, c1)" by (metis surj_pair)
  show ?thesis
  proof (cases g)
    case (Inl err)
    with get show ?thesis by (simp add: redis_Add_GET_error)
  next
    case (Inr count)
    note get = get [unfolded Inr]
    show ?thesis
    proof (cases "projected (r_capacity b) count")
      case None
      from projected_cases [OF None] get show ?thesis
        by (auto simp add: redis_Add_GET_panic redis_Add_parse_error)
    next
      case (Some r)
      then have r: "r \<le> r_capacity b" by (rule projected_le_cap)
      let ?b1 = "b\<lparr>r_remaining := r\<rparr>"
      show ?thesis
      proof (cases "r < amount")
        case True
        obtain out b2 c2 where u: "updateOldReset Do ?b1 now1 now2 c1 = (out, b2, c2)"
          by (metis prod_cases3)
        from updateOldReset_frame [OF u] r
        show ?thesis
          by (simp add: redis_Add_full_path [OF get Some True u] split: outcome.splits)
      next
        case False
        obtain ri c2 where incr: "Do c1 (INCRBY (name b) amount) = (ri, c2)" by (metis surj_pair)
        show ?thesis
        proof (cases ri)
          case (Inl err)
          with r show ?thesis
            by (simp add: redis_Add_INCRBY_error [OF get Some False incr [unfolded Inl]])
        next
          case (Inr count')
          note incr = incr [unfolded Inr]
          have fin: ?thesis
            if n: "count' = RInt64 n"
              and p: "n \<noteq> amount \<and> c3 = c2 \<or>
                 n = amount \<and> (\<exists>x. Do c2 (PEXPIRE (name b) (expiry_of (r_rate b))) = (Inr x, c3))"
            for n c3
          proof -
            obtain out b2 c4 where u: "updateOldReset Do ?b1 now1 now2 c3 = (out, b2, c4)"
              by (metis prod_cases3)
            from updateOldReset_frame [OF u] r
            show ?thesis
              by (simp add: redis_Add_done [OF get Some False incr [unfolded n] p u]
                    projected_le split: outcome.splits)
          qed
          show ?thesis
          proof (cases count')
            case (RInt64 n)
            show ?thesis
            proof (cases "n = amount")
              case False
              with fin [OF RInt64, of c2] show ?thesis by simp
            next
              case True
              obtain rp c3 where pex: "Do c2 (PEXPIRE (name b) (expiry_of (r_rate b))) = (rp, c3)"
                by (metis surj_pair)
              show ?thesis
              proof (cases rp)
                case (Inl err)
                from r show ?thesis
                  by (simp add: redis_Add_PEXPIRE_error
                        [OF get Some \<open>\<not> r < amount\<close> incr [unfolded RInt64 True] pex [unfolded Inl]])
              next
                case (Inr x)
                with pex True fin [OF RInt64, of c3] show ?thesis by blast
              qed
            qed
          next
            case RNil
            with r show ?thesis
              by (simp add: redis_Add_INCRBY_panic [OF get Some False incr])
          next
            case (RBytes arr)
            with r show ?thesis
              by (simp add: redis_Add_INCRBY_panic [OF get Some False incr])
          next
            case ROther
            with r show ?thesis
              by (simp add: redis_Add_INCRBY_panic [OF get Some False incr])
          qed
        qed
      qed
    qed
  qed
qed

lemma redis_bucket_inv_Create:
  "redis_Create Do nm cap' rate' now c = (Return (Some b, e), c') \<Longrightarrow> redis_bucket_inv b"
  by (auto simp add: redis_Create_def redis_bucket_inv_def projected_le'
      split: prod.splits sum.splits reply.splits option.splits)

lemma redis_bucket_inv_Add:
  "redis_bucket_inv b \<Longrightarrow> redis_bucket_inv (fst (snd (redis_Add Do b amount now1 now2 c)))"
  using redis_Add_bucket [of Do b amount now1 now2 c]
  by (auto simp add: redis_bucket_inv_def)

lemma recording_eq:
  "Do c x = (r, c') \<Longrightarrow> recording Do (c, l) x = (r, (c', l @ [x]))"
  by (simp add: recording_def)

lemma updateOldReset_recording:
  "updateOldReset Do b now1 now2 c = (out, b', c') \<Longrightarrow>
   updateOldReset (recording Do) b now1 now2 (c, l) =
     (out, b', (c', l @ (if Unix now1 < Unix (r_reset b) then [] else [PTTL (name b)])))"
  by (auto simp add: updateOldReset_def recording_def split: prod.splits sum.splits reply.splits)

lemma updateOldReset_typed:
  assumes "Unix now1 < Unix (r_reset b) \<or> int_reply (fst (Do c (PTTL (name b))))"
  shows "\<exists>e b' c'. updateOldReset Do b now1 now2 c = (Return e, b', c')"
  using assms
  by (auto simp add: updateOldReset_def int_reply_def split: prod.splits sum.splits reply.splits)

lemma redis_Add_full:
  assumes get: "Do c (GET (name b)) = (Inr count, c1)"
    and prov: "projected (r_capacity b) count = Some r"
    and full: "r < amount"
    and typed: "Unix now1 < Unix (r_reset b) \<or> int_reply (fst (Do c1 (PTTL (name b))))"
  shows "case redis_Add (recording Do) b amount now1 now2 (c, []) of
           (out, b', (c', log)) \<Rightarrow>
             out = Return (\<lparr>Capacity = r_capacity b, Remaining = r, Reset = r_reset b'\<rparr>,
                           Some ErrorFull) \<and>
             r_capacity b' = r_capacity b \<and> r_remaining b' = r \<and>
             log = GET (name b) # (if Unix now1 < Unix (r_reset b) then [] else [PTTL (name b)])"
proof -
  let ?b1 = "b\<lparr>r_remaining := r\<rparr>"
  from typed have "Unix now1 < Unix (r_reset ?b1) \<or> int_reply (fst (Do c1 (PTTL (name ?b1))))"
    by simp
  from updateOldReset_typed [of now1 ?b1 Do c1 now2, OF this]
  obtain e b' c' where u: "updateOldReset Do ?b1 now1 now2 c1 = (Return e, b', c')"
    by blast
  from updateOldReset_frame [OF u]
  have fr: "r_remaining b' = r" "r_capacity b' = r_capacity b" by simp_all
  have g: "recording Do (c, []) (GET (name b)) = (Inr count, (c1, [GET (name b)]))"
    using get by (simp add: recording_def)
  have "redis_Add (recording Do) b amount now1 now2 (c, []) =
          (Return (State b', Some ErrorFull), b',
           (c', [GET (name b)] @ (if Unix now1 < Unix (r_reset ?b1) then [] else [PTTL (name ?b1)])))"
    using redis_Add_full_path [of "recording Do" "(c, [])" b count "(c1, [GET (name b)])" r amount,
        OF g prov full updateOldReset_recording [OF u, of "[GET (name b)]"]]
    by simp
  with fr show ?thesis by (simp add: State_def)
qed

lemma updateOldReset_fresh:
  "Unix now1 < Unix (r_reset b) \<Longrightarrow> updateOldReset Do b now1 now2 c = (Return None, b, c)"
  by (simp add: updateOldReset_def)

lemma updateOldReset_old:
  "\<not> Unix now1 < Unix (r_reset b) \<Longrightarrow> Do c (PTTL (name b)) = (Inr (RInt64 ttl), c') \<Longrightarrow>
   updateOldReset Do b now1 now2 c =
     (Return None, b\<lparr>r_reset := Time_Add now2 (ttl * millisecond)\<rparr>, c')"
  by (simp add: updateOldReset_def)

lemma updateOldReset_old_error:
  "\<not> Unix now1 < Unix (r_reset b) \<Longrightarrow> Do c (PTTL (name b)) = (Inl err, c') \<Longrightarrow>
   updateOldReset Do b now1 now2 c = (Return (Some err), b, c')"
  by (simp add: updateOldReset_def)

text \<open>The run of a successful increment over a recording connection.\<close>

lemma redis_Add_done_recording:
  assumes get: "Do c (GET (name b)) = (Inr count, c1)"
      and prov: "projected (r_capacity b) count = Some r"
      and nfull: "\<not> r < amount"
      and incr: "Do c1 (INCRBY (name b) amount) = (Inr (RInt64 n), c2)"
      and pex: "n \<noteq> amount \<and> c3 = c2 \<or>
           n = amount \<and> (\<exists>x. Do c2 (PEXPIRE (name b) (expiry_of (r_rate b))) = (Inr x, c3))"
      and u: "updateOldReset Do (b\<lparr>r_remaining := r\<rparr>) now1 now2 c3 = (out, b2, c4)"
  shows "redis_Add (recording Do) b amount now1 now2 (c, []) =
           (case out of
              Panic \<Rightarrow> Panic
            | Return e \<Rightarrow>
                Return (State (b2\<lparr>r_remaining := r_capacity b2 - min_uint n (r_capacity b2)\<rparr>), None),
            case out of
              Panic \<Rightarrow> b2
            | Return e \<Rightarrow> b2\<lparr>r_remaining := r_capacity b2 - min_uint n (r_capacity b2)\<rparr>,
            c4,
            [GET (name b), INCRBY (name b) amount]
              @ (if n = amount then [PEXPIRE (name b) (expiry_of (r_rate b))] else [])
              @ (if Unix now1 < Unix (r_reset b) then [] else [PTTL (name b)]))"
proof -
  let ?R = "recording Do"
  let ?pre = "[GET (name b), INCRBY (name b) amount]
              @ (if n = amount then [PEXPIRE (name b) (expiry_of (r_rate b))] else [])"
  have g: "?R (c, []) (GET (name b)) = (Inr count, (c1, [GET (name b)]))"
    using get by (simp add: recording_def)
  have i: "?R (c1, [GET (name b)]) (INCRBY (name b) amount) =
             (Inr (RInt64 n), (c2, [GET (name b), INCRBY (name b) amount]))"
    using incr by (simp add: recording_def)
  have p: "n \<noteq> amount \<and> (c3, ?pre) = (c2, [GET (name b), INCRBY (name b) amount]) \<or>
           n = amount \<and> (\<exists>x. ?R (c2, [GET (name b), INCRBY (name b) amount])
                                 (PEXPIRE (name b) (expiry_of (r_rate b))) = (Inr x, (c3, ?pre)))"
    using pex by (auto simp add: recording_def)
  have u': "updateOldReset ?R (b\<lparr>r_remaining := r\<rparr>) now1 now2 (c3, ?pre) =
          (out, b2, (c4, ?pre @ (if Unix now1 < Unix (r_reset b) then [] else [PTTL (name b)])))"
    using updateOldReset_recording [OF u, of ?pre] by simp
  show ?thesis
    using redis_Add_done [of ?R "(c, [])" b count "(c1, [GET (name b)])" r amount n
        "(c2, [GET (name b), INCRBY (name b) amount])" "(c3, ?pre)" now1 now2 out b2, OF g prov nfull i p u']
    by (simp split: outcome.splits)
qed

section \<open>Refusal, activity and the invariant on both backends\<close>

text \<open>
  C2. When the amount exceeds the \<^verbatim>\<open>remaining\<close> left after the rollover, \<^verbatim>\<open>Add\<close>
  returns \<^verbatim>\<open>ErrorFull\<close> with the state after the rollover and before any decrement, and
  the quota is not touched. Memory backend: \<^verbatim>\<open>remaining\<close> stays at its value after the
  rollover. Redis backend, for every connection: the commands sent are the \<^verbatim>\<open>GET\<close> and,
  when the cached \<^verbatim>\<open>reset\<close> is old, a \<^verbatim>\<open>PTTL\<close>, so the counter is not incremented; the
  store is taken to answer that \<^verbatim>\<open>PTTL\<close> with an integer or an error.
\<close>

theorem Add_full_refused:
  "((if reset b < now2 then capacity b else remaining b) < amount \<longrightarrow>
      memory_Add b amount now1 now2 now3 =
        ((\<lparr>Capacity = capacity b,
           Remaining = (if reset b < now2 then capacity b else remaining b),
           Reset = (if reset b < now2 then Time_Add now3 (rate b) else reset b)\<rparr>,
          Some ErrorFull),
         b\<lparr>updated := now1,
           reset := (if reset b < now2 then Time_Add now3 (rate b) else reset b),
           remaining := (if reset b < now2 then capacity b else remaining b)\<rparr>)) \<and>
   (Do c (GET (name rb)) = (Inr count, c1) \<and> projected (r_capacity rb) count = Some r \<and>
    r < amount' \<and>
    (Unix t1 < Unix (r_reset rb) \<or> int_reply (fst (Do c1 (PTTL (name rb))))) \<longrightarrow>
      (case redis_Add (recording Do) rb amount' t1 t2 (c, []) of
         (out, rb', (c', log)) \<Rightarrow>
           out = Return (\<lparr>Capacity = r_capacity rb, Remaining = r, Reset = r_reset rb'\<rparr>,
                         Some ErrorFull) \<and>
           r_capacity rb' = r_capacity rb \<and> r_remaining rb' = r \<and>
           log = GET (name rb) # (if Unix t1 < Unix (r_reset rb) then [] else [PTTL (name rb)])))"
proof (intro conjI impI)
  assume "(if reset b < now2 then capacity b else remaining b) < amount"
  then show "memory_Add b amount now1 now2 now3 =
        ((\<lparr>Capacity = capacity b,
           Remaining = (if reset b < now2 then capacity b else remaining b),
           Reset = (if reset b < now2 then Time_Add now3 (rate b) else reset b)\<rparr>,
          Some ErrorFull),
         b\<lparr>updated := now1,
           reset := (if reset b < now2 then Time_Add now3 (rate b) else reset b),
           remaining := (if reset b < now2 then capacity b else remaining b)\<rparr>)"
    by (intro memory_Add_full) simp_all
next
  assume a: "Do c (GET (name rb)) = (Inr count, c1) \<and> projected (r_capacity rb) count = Some r \<and>
    r < amount' \<and>
    (Unix t1 < Unix (r_reset rb) \<or> int_reply (fst (Do c1 (PTTL (name rb)))))"
  show "case redis_Add (recording Do) rb amount' t1 t2 (c, []) of
         (out, rb', (c', log)) \<Rightarrow>
           out = Return (\<lparr>Capacity = r_capacity rb, Remaining = r, Reset = r_reset rb'\<rparr>,
                         Some ErrorFull) \<and>
           r_capacity rb' = r_capacity rb \<and> r_remaining rb' = r \<and>
           log = GET (name rb) # (if Unix t1 < Unix (r_reset rb) then [] else [PTTL (name rb)])"
    using a by - (rule redis_Add_full [of Do c rb count c1 r amount' t1 t2], simp_all)
qed

lemma Atoi_8: "Atoi ''8'' = Inr 8"
  by (simp add: Atoi_def digit_def)

lemma Atoi_abc: "Atoi ''abc'' = Inl (NumError ''abc'')"
  by (simp add: Atoi_def digit_def)

theorem Add_full_refused_witness:
  "memory_Add \<lparr>capacity = 10, remaining = 6, reset = 100, rate = 50, updated = 0\<rparr> 7 60 60 60 =
     ((\<lparr>Capacity = 10, Remaining = 6, Reset = 100\<rparr>, Some ErrorFull),
      \<lparr>capacity = 10, remaining = 6, reset = 100, rate = 50, updated = 60\<rparr>) \<and>
   redis_Add (recording fixed_Do)
       \<lparr>name = ''k'', r_capacity = 10, r_remaining = 10, r_reset = 0, r_rate = 1000000000\<rparr>
       3 5000000000 5000000000 (held_key ''8'' 400, []) =
     (Return (\<lparr>Capacity = 10, Remaining = 2, Reset = 5400000000\<rparr>, Some ErrorFull),
      \<lparr>name = ''k'', r_capacity = 10, r_remaining = 2, r_reset = 5400000000, r_rate = 1000000000\<rparr>,
      (held_key ''8'' 400, [GET ''k'', PTTL ''k'']))"
  using Add_full_refused
    [of "\<lparr>capacity = 10, remaining = 6, reset = 100, rate = 50, updated = 0\<rparr>" 60 7 60 60
        fixed_Do "held_key ''8'' 400"
        "\<lparr>name = ''k'', r_capacity = 10, r_remaining = 10, r_reset = 0, r_rate = 1000000000\<rparr>"
        "RBytes ''8''" "held_key ''8'' 400" 2 3 5000000000 5000000000]
  by (simp add: fixed_Do_def projected_def byteArrayToUint_def Atoi_8 min_uint_def int_reply_def
        Unix_def redis_Add_def recording_def updateOldReset_def State_def Time_Add_def
        millisecond_def)

text \<open>
  C10. Every \<^verbatim>\<open>Add\<close> and every \<^verbatim>\<open>AddWithTime\<close> of the memory backend, refused or not,
  sets \<^verbatim>\<open>updated\<close> to the wall clock (for \<^verbatim>\<open>AddWithTime\<close> the clock, not the supplied
  time). So whether a later \<^verbatim>\<open>Clean\<close> evicts the bucket is decided by the time of that
  last call alone: the entry stays unless the call is more than one hour
  (\<open>3600000000000\<close> nanoseconds) older than the sweep's clock.
\<close>

theorem Add_marks_activity:
  "updated (snd (memory_Add b amount now1 now2 now3)) = now1 \<and>
   updated (snd (AddWithTime b amount t now1)) = now1 \<and>
   (buckets s k = Some p \<and> p < length (heap s) \<longrightarrow>
      buckets (Clean (snd (call_Add s p amount now1 now2 now3)) nm now) k =
        (if now1 < now k - 3600000000000 then None else Some p) \<and>
      buckets (Clean (snd (call_AddWithTime s p amount t now1)) nm now) k =
        (if now1 < now k - 3600000000000 then None else Some p))"
proof (intro conjI impI)
  show "updated (snd (memory_Add b amount now1 now2 now3)) = now1"
    by (rule updated_memory_Add)
  show "updated (snd (AddWithTime b amount t now1)) = now1"
    by (rule updated_AddWithTime)
next
  assume a: "buckets s k = Some p \<and> p < length (heap s)"
  let ?s = "snd (call_Add s p amount now1 now2 now3)"
  have "buckets ?s k = Some p" "updated (heap ?s ! p) = now1"
    using a updated_memory_Add [of "heap s ! p" amount now1 now2 now3]
    by (simp_all add: call_Add_def split_beta)
  then show "buckets (Clean ?s nm now) k = (if now1 < now k - 3600000000000 then None else Some p)"
    by (simp add: Clean_keeps)
next
  assume a: "buckets s k = Some p \<and> p < length (heap s)"
  let ?s = "snd (call_AddWithTime s p amount t now1)"
  have "buckets ?s k = Some p" "updated (heap ?s ! p) = now1"
    using a updated_AddWithTime [of "heap s ! p" amount t now1]
    by (simp_all add: call_AddWithTime_def split_beta)
  then show "buckets (Clean ?s nm now) k = (if now1 < now k - 3600000000000 then None else Some p)"
    by (simp add: Clean_keeps)
qed

theorem Add_marks_activity_witness:
  "buckets (Clean \<lparr>heap = [\<lparr>capacity = 10, remaining = 10, reset = 1000000000, rate = 1000000000,
                              updated = 0\<rparr>],
                    buckets = [''a'' \<mapsto> 0]\<rparr> ''x'' (\<lambda>k. 7200000000000)) ''a'' = None \<and>
   snd (fst (call_Add \<lparr>heap = [\<lparr>capacity = 10, remaining = 10, reset = 1000000000,
                                 rate = 1000000000, updated = 0\<rparr>],
                       buckets = [''a'' \<mapsto> 0]\<rparr> 0 11 5400000000000 5400000000000 5400000000000))
     = Some ErrorFull \<and>
   buckets (Clean (snd (call_Add \<lparr>heap = [\<lparr>capacity = 10, remaining = 10, reset = 1000000000,
                                            rate = 1000000000, updated = 0\<rparr>],
                                  buckets = [''a'' \<mapsto> 0]\<rparr> 0 11 5400000000000 5400000000000
                                  5400000000000))
              ''x'' (\<lambda>k. 7200000000000)) ''a'' = Some 0"
  using Add_marks_activity
    [of "\<lparr>capacity = 10, remaining = 10, reset = 1000000000, rate = 1000000000, updated = 0\<rparr>"
        11 5400000000000 5400000000000 5400000000000 0
        "\<lparr>heap = [\<lparr>capacity = 10, remaining = 10, reset = 1000000000, rate = 1000000000,
                   updated = 0\<rparr>], buckets = [''a'' \<mapsto> 0]\<rparr>" "''a''" 0 "''x''" "\<lambda>k. 7200000000000"]
  by (simp add: Clean_def Before_def Time_Add_def sint_neg_Hour call_Add_def memory_Add_def
        Let_def After_def)

lemma redis_bucket_inv_updateOldReset:
  assumes "redis_bucket_inv b"
  shows "redis_bucket_inv (fst (snd (updateOldReset Do b now1 now2 c)))"
proof -
  obtain out b' c' where u: "updateOldReset Do b now1 now2 c = (out, b', c')"
    by (metis prod_cases3)
  from updateOldReset_frame [OF u] assms show ?thesis
    by (simp add: u redis_bucket_inv_def)
qed


text \<open>
  C4. \<^verbatim>\<open>remaining\<close> is at most \<^verbatim>\<open>capacity\<close> (and, unsigned, at least zero) in every
  bucket at creation, and every operation keeps it so: in the memory backend \<^verbatim>\<open>New\<close>,
  \<^verbatim>\<open>Create\<close>, \<^verbatim>\<open>Clean\<close>, \<^verbatim>\<open>Add\<close> and \<^verbatim>\<open>AddWithTime\<close>, on a bucket and on the store
  through a pointer; in the redis backend \<^verbatim>\<open>Create\<close>, \<^verbatim>\<open>Add\<close> and
  \<^verbatim>\<open>updateOldReset\<close>, over every connection and on every path, a panic included. The
  projection \<open>capacity - min (counter, capacity)\<close> is at most \<^verbatim>\<open>capacity\<close> for every
  counter, in both orders in which the source writes the arguments of \<^verbatim>\<open>min\<close>.
\<close>

theorem remaining_within_capacity:
  "Storage_inv memory_New \<and>
   (Storage_inv s \<longrightarrow>
      Storage_inv (snd (memory_Create s nm cap rate' now1 now2)) \<and>
      Storage_inv (Clean s nm now)) \<and>
   (Storage_inv s \<and> p < length (heap s) \<longrightarrow>
      Storage_inv (snd (call_Add s p amount now1 now2 now3)) \<and>
      Storage_inv (snd (call_AddWithTime s p amount t now1))) \<and>
   (bucket_inv b \<longrightarrow>
      bucket_inv (snd (memory_Add b amount now1 now2 now3)) \<and>
      bucket_inv (snd (AddWithTime b amount t now1))) \<and>
   (redis_Create Do nm cap rate' now1 c = (Return (Some rb, e), c') \<longrightarrow> redis_bucket_inv rb) \<and>
   (redis_bucket_inv rb' \<longrightarrow>
      redis_bucket_inv (fst (snd (redis_Add Do rb' amount now1 now2 c))) \<and>
      redis_bucket_inv (fst (snd (updateOldReset Do rb' now1 now2 c)))) \<and>
   cap - min_uint num cap \<le> cap \<and> cap - min_uint cap num \<le> cap"
proof (intro conjI impI)
  show "Storage_inv memory_New" by (rule Storage_inv_New)
  show "cap - min_uint num cap \<le> cap" by (rule projected_le)
  show "cap - min_uint cap num \<le> cap" by (rule projected_le')
next
  assume "Storage_inv s"
  then show "Storage_inv (snd (memory_Create s nm cap rate' now1 now2))"
    by (rule Storage_inv_Create)
next
  assume "Storage_inv s"
  then show "Storage_inv (Clean s nm now)" by (rule Storage_inv_Clean)
next
  assume "Storage_inv s \<and> p < length (heap s)"
  then show "Storage_inv (snd (call_Add s p amount now1 now2 now3))"
    by (simp add: Storage_inv_call_Add)
next
  assume "Storage_inv s \<and> p < length (heap s)"
  then show "Storage_inv (snd (call_AddWithTime s p amount t now1))"
    by (simp add: Storage_inv_call_AddWithTime)
next
  assume "bucket_inv b"
  then show "bucket_inv (snd (memory_Add b amount now1 now2 now3))"
    by (rule bucket_inv_memory_Add)
next
  assume "bucket_inv b"
  then show "bucket_inv (snd (AddWithTime b amount t now1))"
    by (rule bucket_inv_AddWithTime)
next
  assume "redis_Create Do nm cap rate' now1 c = (Return (Some rb, e), c')"
  then show "redis_bucket_inv rb" by (rule redis_bucket_inv_Create)
next
  assume "redis_bucket_inv rb'"
  then show "redis_bucket_inv (fst (snd (redis_Add Do rb' amount now1 now2 c)))"
    by (rule redis_bucket_inv_Add)
next
  assume "redis_bucket_inv rb'"
  then show "redis_bucket_inv (fst (snd (updateOldReset Do rb' now1 now2 c)))"
    by (rule redis_bucket_inv_updateOldReset)
qed

lemma Atoi_25: "Atoi ''25'' = Inr 25"
  by (simp add: Atoi_def digit_def)

theorem remaining_within_capacity_witness:
  "bucket_inv \<lparr>capacity = 10, remaining = 6, reset = 100, rate = 50, updated = 0\<rparr> \<and>
   bucket_inv (snd (memory_Add \<lparr>capacity = 10, remaining = 6, reset = 100, rate = 50, updated = 0\<rparr>
                     4 60 60 60)) \<and>
   redis_Create fixed_Do ''k'' 10 1000000000 0 (held_key ''25'' 400) =
     (Return (Some \<lparr>name = ''k'', r_capacity = 10, r_remaining = 0, r_reset = 400000000,
                     r_rate = 1000000000\<rparr>, None), held_key ''25'' 400) \<and>
   redis_bucket_inv \<lparr>name = ''k'', r_capacity = 10, r_remaining = 0, r_reset = 400000000,
                     r_rate = 1000000000\<rparr> \<and>
   redis_bucket_inv (fst (snd (redis_Add fixed_Do
       \<lparr>name = ''k'', r_capacity = 10, r_remaining = 0, r_reset = 400000000, r_rate = 1000000000\<rparr>
       3 5000000000 5000000000 (fresh_key 1000))))"
proof -
  let ?b = "\<lparr>capacity = 10, remaining = 6, reset = 100, rate = 50, updated = 0\<rparr>"
  let ?rb = "\<lparr>name = ''k'', r_capacity = 10, r_remaining = 0, r_reset = 400000000,
              r_rate = 1000000000\<rparr>"
  note T = remaining_within_capacity
    [where b = ?b and amount = 3 and ?now1.0 = 5000000000 and ?now2.0 = 5000000000
       and rb' = ?rb and Do = fixed_Do and c = "fresh_key 1000"]
  note U = remaining_within_capacity
    [where Do = fixed_Do and nm = "''k''" and cap = 10 and rate' = 1000000000 and ?now1.0 = 0
       and c = "held_key ''25'' 400" and rb = ?rb and e = None and c' = "held_key ''25'' 400"]
  note V = remaining_within_capacity
    [where b = ?b and amount = 4 and ?now1.0 = 60 and ?now2.0 = 60 and ?now3.0 = 60]
  have b: "bucket_inv ?b" by (simp add: bucket_inv_def)
  have b': "bucket_inv (snd (memory_Add ?b 4 60 60 60))"
    by (rule V [THEN conjunct2, THEN conjunct2, THEN conjunct2, THEN conjunct1, THEN mp, OF b,
                THEN conjunct1])
  have cr: "redis_Create fixed_Do ''k'' 10 1000000000 0 (held_key ''25'' 400) =
     (Return (Some ?rb, None), held_key ''25'' 400)"
    by (simp add: redis_Create_def fixed_Do_def byteArrayToUint_def Atoi_25 min_uint_def
          Time_Add_def millisecond_def)
  have rb: "redis_bucket_inv ?rb"
    by (rule U [THEN conjunct2, THEN conjunct2, THEN conjunct2, THEN conjunct2, THEN conjunct1,
                THEN mp, OF cr])
  have rb': "redis_bucket_inv (fst (snd (redis_Add fixed_Do ?rb 3 5000000000 5000000000
               (fresh_key 1000))))"
    by (rule T [THEN conjunct2, THEN conjunct2, THEN conjunct2, THEN conjunct2, THEN conjunct2,
                THEN conjunct1, THEN mp, OF rb, THEN conjunct1])
  show ?thesis by (intro conjI b b' cr rb rb')
qed

section \<open>The redis backend: commands, errors and reconciliation\<close>

lemma expiry_of_eq: "expiry_of d = word_of_int (sint d sdiv 1000000)"
  by (rule expiry_of_def)

lemma redis_Add_log:
  assumes get: "Do c (GET (name b)) = (Inr count, c1)"
      and prov: "projected (r_capacity b) count = Some r"
      and nfull: "\<not> r < amount"
  shows "\<exists>tail. snd (snd (snd (redis_Add (recording Do) b amount now1 now2 (c, [])))) =
           GET (name b) # INCRBY (name b) amount #
           (if fst (Do c1 (INCRBY (name b) amount)) = Inr (RInt64 amount)
            then [PEXPIRE (name b) (expiry_of (r_rate b))] else []) @ tail \<and>
         set tail \<subseteq> {PTTL (name b)}"
proof -
  let ?R = "recording Do"
  let ?E = "PEXPIRE (name b) (expiry_of (r_rate b))"
  let ?l2 = "[GET (name b), INCRBY (name b) amount]"
  obtain ri c2 where incr: "Do c1 (INCRBY (name b) amount) = (ri, c2)" by (metis surj_pair)
  have g: "?R (c, []) (GET (name b)) = (Inr count, (c1, [GET (name b)]))"
    using get by (simp add: recording_def)
  have i: "?R (c1, [GET (name b)]) (INCRBY (name b) amount) = (ri, (c2, ?l2))"
    using incr by (simp add: recording_def)
  show ?thesis
  proof (cases ri)
    case (Inl err)
    have "redis_Add ?R b amount now1 now2 (c, []) =
            (Return (State (b\<lparr>r_remaining := r\<rparr>), Some err), b\<lparr>r_remaining := r\<rparr>, (c2, ?l2))"
      by (rule redis_Add_INCRBY_error [of ?R "(c, [])" b count "(c1, [GET (name b)])" r amount err,
            OF g prov nfull i [unfolded Inl]])
    with incr Inl show ?thesis by simp
  next
    case (Inr count')
    note i = i [unfolded Inr]
    show ?thesis
    proof (cases "\<exists>n. count' = RInt64 n")
      case False
      then have "count' = RNil \<or> (\<exists>arr. count' = RBytes arr) \<or> count' = ROther"
        by (cases count') simp_all
      then have "redis_Add ?R b amount now1 now2 (c, []) = (Panic, b\<lparr>r_remaining := r\<rparr>, (c2, ?l2))"
        by (rule redis_Add_INCRBY_panic [of ?R "(c, [])" b count "(c1, [GET (name b)])" r amount,
              OF g prov nfull i])
      with incr Inr False show ?thesis by auto
    next
      case True
      then obtain n where n: "count' = RInt64 n" by blast
      note incr' = incr [unfolded Inr n]
      have fin: ?thesis
        if p: "n \<noteq> amount \<and> c3 = c2 \<or>
               n = amount \<and> (\<exists>x. Do c2 ?E = (Inr x, c3))" for c3
      proof -
        obtain out b2 c4 where u: "updateOldReset Do (b\<lparr>r_remaining := r\<rparr>) now1 now2 c3 = (out, b2, c4)"
          by (metis prod_cases3)
        from redis_Add_done_recording [OF get prov nfull incr' p u] incr'
        show ?thesis by auto
      qed
      show ?thesis
      proof (cases "n = amount")
        case False
        with fin [of c2] show ?thesis by simp
      next
        case True
        obtain rp c3 where pex: "Do c2 ?E = (rp, c3)" by (metis surj_pair)
        show ?thesis
        proof (cases rp)
          case (Inr x)
          with pex True fin [of c3] show ?thesis by blast
        next
          case (Inl err)
          have e: "?R (c2, ?l2) ?E = (Inl err, (c3, ?l2 @ [?E]))"
            using pex Inl by (simp add: recording_def)
          have "redis_Add ?R b amount now1 now2 (c, []) =
            (Return (State (b\<lparr>r_remaining := r\<rparr>), Some err), b\<lparr>r_remaining := r\<rparr>,
             (c3, ?l2 @ [?E]))"
            by (rule redis_Add_PEXPIRE_error [of ?R "(c, [])" b count "(c1, [GET (name b)])" r amount
                  "(c2, ?l2)" err, OF g prov nfull i [unfolded n True] e])
          with incr' True show ?thesis by simp
        qed
      qed
    qed
  qed
qed

text \<open>
  C5. In the redis \<^verbatim>\<open>Add\<close>, once the amount is within the projected \<^verbatim>\<open>remaining\<close>, the
  second command sent is \<^verbatim>\<open>INCRBY\<close> of the key by the amount, and it is sent once. A
  \<^verbatim>\<open>PEXPIRE\<close> follows exactly when \<^verbatim>\<open>INCRBY\<close> answered the amount itself; it is for the
  same key, with the rate in milliseconds (the nanoseconds divided by \<open>1000000\<close>,
  truncating). Whatever else is sent afterwards is a \<^verbatim>\<open>PTTL\<close> of the key. The list is
  the one kept by the recording connection, for every connection.
\<close>

theorem Add_increments_then_expires:
  "Do c (GET (name b)) = (Inr count, c1) \<and> projected (r_capacity b) count = Some r \<and>
   \<not> r < amount \<longrightarrow>
   (\<exists>tail. snd (snd (snd (redis_Add (recording Do) b amount now1 now2 (c, [])))) =
       GET (name b) # INCRBY (name b) amount #
       (if fst (Do c1 (INCRBY (name b) amount)) = Inr (RInt64 amount)
        then [PEXPIRE (name b) (word_of_int (sint (r_rate b) sdiv 1000000))] else []) @ tail \<and>
     set tail \<subseteq> {PTTL (name b)})"
proof
  assume a: "Do c (GET (name b)) = (Inr count, c1) \<and> projected (r_capacity b) count = Some r \<and>
   \<not> r < amount"
  then have 1: "Do c (GET (name b)) = (Inr count, c1)"
    and 2: "projected (r_capacity b) count = Some r" and 3: "\<not> r < amount" by simp_all
  from redis_Add_log [of Do c b count c1 r amount now1 now2, OF 1 2 3]
  show "\<exists>tail. snd (snd (snd (redis_Add (recording Do) b amount now1 now2 (c, [])))) =
       GET (name b) # INCRBY (name b) amount #
       (if fst (Do c1 (INCRBY (name b) amount)) = Inr (RInt64 amount)
        then [PEXPIRE (name b) (word_of_int (sint (r_rate b) sdiv 1000000))] else []) @ tail \<and>
     set tail \<subseteq> {PTTL (name b)}"
    by (simp only: expiry_of_eq)
qed

lemma Atoi_4: "Atoi ''4'' = Inr 4"
  by (simp add: Atoi_def digit_def)

theorem Add_increments_then_expires_witness:
  "snd (snd (snd (redis_Add (recording fixed_Do)
       \<lparr>name = ''k'', r_capacity = 10, r_remaining = 10, r_reset = 0, r_rate = 1000000000\<rparr>
       4 5000000000 5000000000 (fresh_key 1000, [])))) =
     [GET ''k'', INCRBY ''k'' 4, PEXPIRE ''k'' 1000, PTTL ''k''] \<and>
   snd (snd (snd (redis_Add (recording fixed_Do)
       \<lparr>name = ''k'', r_capacity = 10, r_remaining = 10, r_reset = 0, r_rate = 1000000000\<rparr>
       3 5000000000 5000000000 (held_key ''4'' 700, [])))) =
     [GET ''k'', INCRBY ''k'' 3, PTTL ''k'']"
  using Add_increments_then_expires
    [of fixed_Do "fresh_key 1000"
        "\<lparr>name = ''k'', r_capacity = 10, r_remaining = 10, r_reset = 0, r_rate = 1000000000\<rparr>"
        RNil "fresh_key 1000" 10 4 5000000000 5000000000]
    Add_increments_then_expires
    [of fixed_Do "held_key ''4'' 700"
        "\<lparr>name = ''k'', r_capacity = 10, r_remaining = 10, r_reset = 0, r_rate = 1000000000\<rparr>"
        "RBytes ''4''" "held_key ''4'' 700" 6 3 5000000000 5000000000]
  by (simp add: fixed_Do_def projected_def byteArrayToUint_def Atoi_4 min_uint_def
        Unix_def redis_Add_def recording_def updateOldReset_def State_def Time_Add_def
        millisecond_def signed_divide_int_def)

lemma redis_Create_parse_error:
  "Do c (GET nm) = (Inr (RBytes arr), c1) \<Longrightarrow> Atoi arr = Inl err \<Longrightarrow>
   redis_Create Do nm cap rate' now c = (Return (None, Some err), c1)"
  by (simp add: redis_Create_def byteArrayToUint_def)

text \<open>
  C8. When the value stored under the key does not parse as an integer, \<^verbatim>\<open>Add\<close> returns
  the error of the parse with the state of the bucket, which it leaves unchanged, and
  \<^verbatim>\<open>Create\<close> returns the error and no bucket. In both the \<^verbatim>\<open>GET\<close> is the only command
  sent: no \<^verbatim>\<open>INCRBY\<close>, no \<^verbatim>\<open>PEXPIRE\<close>.
\<close>

theorem parse_error_returned:
  "(Do c (GET (name b)) = (Inr (RBytes arr), c1) \<and> Atoi arr = Inl err \<longrightarrow>
      redis_Add (recording Do) b amount now1 now2 (c, []) =
        (Return (State b, Some err), b, (c1, [GET (name b)]))) \<and>
   (Do c (GET nm) = (Inr (RBytes arr), c1) \<and> Atoi arr = Inl err \<longrightarrow>
      redis_Create (recording Do) nm cap rate' now1 (c, []) =
        (Return (None, Some err), (c1, [GET nm])))"
proof (intro conjI impI)
  assume a: "Do c (GET (name b)) = (Inr (RBytes arr), c1) \<and> Atoi arr = Inl err"
  then have g: "recording Do (c, []) (GET (name b)) = (Inr (RBytes arr), (c1, [GET (name b)]))"
    by (simp add: recording_def)
  from a have e: "Atoi arr = Inl err" by simp
  show "redis_Add (recording Do) b amount now1 now2 (c, []) =
        (Return (State b, Some err), b, (c1, [GET (name b)]))"
    by (rule redis_Add_parse_error [of "recording Do" "(c, [])" b arr "(c1, [GET (name b)])" err,
          OF g e])
next
  assume a: "Do c (GET nm) = (Inr (RBytes arr), c1) \<and> Atoi arr = Inl err"
  then have g: "recording Do (c, []) (GET nm) = (Inr (RBytes arr), (c1, [GET nm]))"
    by (simp add: recording_def)
  from a have e: "Atoi arr = Inl err" by simp
  show "redis_Create (recording Do) nm cap rate' now1 (c, []) =
        (Return (None, Some err), (c1, [GET nm]))"
    by (rule redis_Create_parse_error [of "recording Do" "(c, [])" nm arr "(c1, [GET nm])" err,
          OF g e])
qed

theorem parse_error_returned_witness:
  "Atoi ''abc'' = Inl (NumError ''abc'') \<and>
   redis_Add (recording fixed_Do)
       \<lparr>name = ''k'', r_capacity = 10, r_remaining = 7, r_reset = 0, r_rate = 1000000000\<rparr>
       0 5000000000 5000000000 (held_key ''abc'' 700, []) =
     (Return (\<lparr>Capacity = 10, Remaining = 7, Reset = 0\<rparr>, Some (NumError ''abc'')),
      \<lparr>name = ''k'', r_capacity = 10, r_remaining = 7, r_reset = 0, r_rate = 1000000000\<rparr>,
      (held_key ''abc'' 700, [GET ''k''])) \<and>
   redis_Create (recording fixed_Do) ''k'' 10 1000000000 5000000000 (held_key ''abc'' 700, []) =
     (Return (None, Some (NumError ''abc'')), (held_key ''abc'' 700, [GET ''k'']))"
  using parse_error_returned
    [of fixed_Do "held_key ''abc'' 700"
        "\<lparr>name = ''k'', r_capacity = 10, r_remaining = 7, r_reset = 0, r_rate = 1000000000\<rparr>"
        "''abc''" "held_key ''abc'' 700" "NumError ''abc''" 0 5000000000 5000000000 "''k''" 10
        1000000000]
  by (simp add: fixed_Do_def Atoi_abc State_def)

text \<open>
  C9, as the code has it. After a successful increment (and, when it was the first, a
  successful \<^verbatim>\<open>PEXPIRE\<close>), \<^verbatim>\<open>Add\<close> reconciles the cached \<^verbatim>\<open>reset\<close> only when it is old,
  that is when its Unix second is not after the clock's. Then \<^verbatim>\<open>PTTL\<close> is asked, and an
  answer \<open>ttl\<close> makes the returned \<^verbatim>\<open>reset\<close> the clock plus \<open>ttl\<close> milliseconds, while an
  error of \<^verbatim>\<open>PTTL\<close> is dropped and the cached \<^verbatim>\<open>reset\<close> returned. When the cached
  \<^verbatim>\<open>reset\<close> lies in a later second than the clock, no \<^verbatim>\<open>PTTL\<close> is sent and the cached
  \<^verbatim>\<open>reset\<close> is returned as it is.
\<close>

theorem Add_reconciles_old_reset:
  "Do c (GET (name b)) = (Inr count, c1) \<and> projected (r_capacity b) count = Some r \<and>
   \<not> r < amount \<and> Do c1 (INCRBY (name b) amount) = (Inr (RInt64 n), c2) \<and>
   (n \<noteq> amount \<and> c3 = c2 \<or>
    n = amount \<and> (\<exists>x. Do c2 (PEXPIRE (name b) (expiry_of (r_rate b))) = (Inr x, c3))) \<longrightarrow>
   (Unix now1 < Unix (r_reset b) \<longrightarrow>
      fst (redis_Add (recording Do) b amount now1 now2 (c, [])) =
        Return (\<lparr>Capacity = r_capacity b,
                 Remaining = r_capacity b - min_uint n (r_capacity b),
                 Reset = r_reset b\<rparr>, None) \<and>
      PTTL (name b) \<notin> set (snd (snd (snd (redis_Add (recording Do) b amount now1 now2 (c, [])))))) \<and>
   (\<not> Unix now1 < Unix (r_reset b) \<and> Do c3 (PTTL (name b)) = (Inr (RInt64 ttl), c4) \<longrightarrow>
      fst (redis_Add (recording Do) b amount now1 now2 (c, [])) =
        Return (\<lparr>Capacity = r_capacity b,
                 Remaining = r_capacity b - min_uint n (r_capacity b),
                 Reset = Time_Add now2 (ttl * millisecond)\<rparr>, None)) \<and>
   (\<not> Unix now1 < Unix (r_reset b) \<and> Do c3 (PTTL (name b)) = (Inl err, c4) \<longrightarrow>
      fst (redis_Add (recording Do) b amount now1 now2 (c, [])) =
        Return (\<lparr>Capacity = r_capacity b,
                 Remaining = r_capacity b - min_uint n (r_capacity b),
                 Reset = r_reset b\<rparr>, None))"
proof
  assume a: "Do c (GET (name b)) = (Inr count, c1) \<and> projected (r_capacity b) count = Some r \<and>
   \<not> r < amount \<and> Do c1 (INCRBY (name b) amount) = (Inr (RInt64 n), c2) \<and>
   (n \<noteq> amount \<and> c3 = c2 \<or>
    n = amount \<and> (\<exists>x. Do c2 (PEXPIRE (name b) (expiry_of (r_rate b))) = (Inr x, c3)))"
  then have get: "Do c (GET (name b)) = (Inr count, c1)"
    and prov: "projected (r_capacity b) count = Some r"
    and nfull: "\<not> r < amount"
    and incr: "Do c1 (INCRBY (name b) amount) = (Inr (RInt64 n), c2)"
    and pex: "n \<noteq> amount \<and> c3 = c2 \<or>
      n = amount \<and> (\<exists>x. Do c2 (PEXPIRE (name b) (expiry_of (r_rate b))) = (Inr x, c3))"
    by simp_all
  let ?b1 = "b\<lparr>r_remaining := r\<rparr>"
  note run = redis_Add_done_recording [of Do c b count c1 r amount n c2 c3 now1 now2,
      OF get prov nfull incr pex]
  show "(Unix now1 < Unix (r_reset b) \<longrightarrow>
      fst (redis_Add (recording Do) b amount now1 now2 (c, [])) =
        Return (\<lparr>Capacity = r_capacity b,
                 Remaining = r_capacity b - min_uint n (r_capacity b),
                 Reset = r_reset b\<rparr>, None) \<and>
      PTTL (name b) \<notin> set (snd (snd (snd (redis_Add (recording Do) b amount now1 now2 (c, [])))))) \<and>
   (\<not> Unix now1 < Unix (r_reset b) \<and> Do c3 (PTTL (name b)) = (Inr (RInt64 ttl), c4) \<longrightarrow>
      fst (redis_Add (recording Do) b amount now1 now2 (c, [])) =
        Return (\<lparr>Capacity = r_capacity b,
                 Remaining = r_capacity b - min_uint n (r_capacity b),
                 Reset = Time_Add now2 (ttl * millisecond)\<rparr>, None)) \<and>
   (\<not> Unix now1 < Unix (r_reset b) \<and> Do c3 (PTTL (name b)) = (Inl err, c4) \<longrightarrow>
      fst (redis_Add (recording Do) b amount now1 now2 (c, [])) =
        Return (\<lparr>Capacity = r_capacity b,
                 Remaining = r_capacity b - min_uint n (r_capacity b),
                 Reset = r_reset b\<rparr>, None))"
  proof (intro conjI impI)
    assume f: "Unix now1 < Unix (r_reset b)"
    then have u: "updateOldReset Do ?b1 now1 now2 c3 = (Return None, ?b1, c3)"
      by (simp add: updateOldReset_fresh)
    from run [OF u] f
    show "fst (redis_Add (recording Do) b amount now1 now2 (c, [])) =
        Return (\<lparr>Capacity = r_capacity b,
                 Remaining = r_capacity b - min_uint n (r_capacity b),
                 Reset = r_reset b\<rparr>, None)"
      by (simp add: State_def)
    from run [OF u] f
    show "PTTL (name b) \<notin> set (snd (snd (snd (redis_Add (recording Do) b amount now1 now2 (c, [])))))"
      by simp
  next
    assume o: "\<not> Unix now1 < Unix (r_reset b) \<and> Do c3 (PTTL (name b)) = (Inr (RInt64 ttl), c4)"
    then have u: "updateOldReset Do ?b1 now1 now2 c3 =
        (Return None, ?b1\<lparr>r_reset := Time_Add now2 (ttl * millisecond)\<rparr>, c4)"
      by (simp add: updateOldReset_old)
    from run [OF u]
    show "fst (redis_Add (recording Do) b amount now1 now2 (c, [])) =
        Return (\<lparr>Capacity = r_capacity b,
                 Remaining = r_capacity b - min_uint n (r_capacity b),
                 Reset = Time_Add now2 (ttl * millisecond)\<rparr>, None)"
      by (simp add: State_def)
  next
    assume o: "\<not> Unix now1 < Unix (r_reset b) \<and> Do c3 (PTTL (name b)) = (Inl err, c4)"
    then have u: "updateOldReset Do ?b1 now1 now2 c3 = (Return (Some err), ?b1, c4)"
      by (simp add: updateOldReset_old_error)
    from run [OF u]
    show "fst (redis_Add (recording Do) b amount now1 now2 (c, [])) =
        Return (\<lparr>Capacity = r_capacity b,
                 Remaining = r_capacity b - min_uint n (r_capacity b),
                 Reset = r_reset b\<rparr>, None)"
      by (simp add: State_def)
  qed
qed

theorem Add_reconciles_old_reset_witness:
  "fst (redis_Add (recording fixed_Do)
       \<lparr>name = ''k'', r_capacity = 10, r_remaining = 10, r_reset = 0, r_rate = 1000000000\<rparr>
       4 5000000000 5000000000 (fresh_key 1000, [])) =
     Return (\<lparr>Capacity = 10, Remaining = 6, Reset = 6000000000\<rparr>, None) \<and>
   fst (redis_Add (recording fixed_Do)
       \<lparr>name = ''k'', r_capacity = 10, r_remaining = 10, r_reset = 9000000000, r_rate = 1000000000\<rparr>
       3 5000000000 5000000000 (held_key ''4'' 700, [])) =
     Return (\<lparr>Capacity = 10, Remaining = 3, Reset = 9000000000\<rparr>, None)"
  using Add_reconciles_old_reset
    [where Do = fixed_Do and c = "fresh_key 1000" and ?c1.0 = "fresh_key 1000"
       and ?c2.0 = "fresh_key 1000" and ?c3.0 = "fresh_key 1000" and ?c4.0 = "fresh_key 1000"
       and b = "\<lparr>name = ''k'', r_capacity = 10, r_remaining = 10, r_reset = 0,
                  r_rate = 1000000000\<rparr>"
       and count = RNil and r = 10 and amount = 4 and n = 4 and ?now1.0 = 5000000000
       and ?now2.0 = 5000000000 and ttl = 1000]
    Add_reconciles_old_reset
    [where Do = fixed_Do and c = "held_key ''4'' 700" and ?c1.0 = "held_key ''4'' 700"
       and ?c2.0 = "held_key ''4'' 700" and ?c3.0 = "held_key ''4'' 700"
       and b = "\<lparr>name = ''k'', r_capacity = 10, r_remaining = 10, r_reset = 9000000000,
                  r_rate = 1000000000\<rparr>"
       and count = "RBytes ''4''" and r = 6 and amount = 3 and n = 7 and ?now1.0 = 5000000000
       and ?now2.0 = 5000000000]
  by (simp add: fixed_Do_def projected_def byteArrayToUint_def Atoi_4 min_uint_def
        Unix_def Time_Add_def millisecond_def expiry_of_def)

text \<open>
  C9 as stated fails for a bucket whose cached \<^verbatim>\<open>reset\<close> is still ahead: created at time
  0 with a rate of 10 s, first used at 5 s. The key then has 10000 ms to live, so the clock
  plus the \<^verbatim>\<open>PTTL\<close> is 15 s, and the successful \<^verbatim>\<open>Add\<close> returns the cached 10 s.
\<close>

theorem Add_keeps_fresh_reset_counterexample:
  "fst (redis_Add fixed_Do
       \<lparr>name = ''k'', r_capacity = 10, r_remaining = 10, r_reset = 10000000000,
          r_rate = 10000000000\<rparr>
       1 5000000000 5000000000 (fresh_key 10000)) =
     Return (\<lparr>Capacity = 10, Remaining = 9, Reset = 10000000000\<rparr>, None) \<and>
   fst (fixed_Do (fresh_key 10000) (PTTL ''k'')) = Inr (RInt64 10000) \<and>
   Time_Add 5000000000 (10000 * millisecond) \<noteq> 10000000000"
  by (simp add: redis_Add_def fixed_Do_def min_uint_def Unix_def Time_Add_def millisecond_def
        updateOldReset_def State_def)

section \<open>Creating a bucket again\<close>

lemma redis_Create_log:
  "set (snd (snd (redis_Create (recording Do) nm cap' rate' now (c, [])))) \<subseteq> {GET nm, PTTL nm}"
  by (auto simp add: redis_Create_def recording_def
      split: prod.splits sum.splits reply.splits option.splits)

text \<open>
  C6, as the code has it. Memory backend: after a \<^verbatim>\<open>Create\<close> the table holds the pointer
  it returned, and a \<^verbatim>\<open>Create\<close> for a name the table holds returns that pointer and
  leaves the whole store, the bucket included, as it was, whatever capacity and rate it
  is given. Redis backend: \<^verbatim>\<open>Create\<close> keeps no table; every call builds a new bucket
  with the capacity and the rate of that call, full with a \<^verbatim>\<open>reset\<close> one rate ahead when
  the key is absent, and with \<^verbatim>\<open>remaining\<close> and \<^verbatim>\<open>reset\<close> projected from the counter and
  its \<^verbatim>\<open>PTTL\<close> otherwise. It sends no command but \<^verbatim>\<open>GET\<close> and \<^verbatim>\<open>PTTL\<close>, so it
  writes nothing to the store.
\<close>

theorem Create_again:
  "(buckets s nm = Some p \<longrightarrow> memory_Create s nm cap' rate' now1 now2 = ((p, None), s)) \<and>
   buckets (snd (memory_Create s nm cap rate'' now1 now2)) nm =
     Some (fst (fst (memory_Create s nm cap rate'' now1 now2))) \<and>
   (Do c (GET nm) = (Inr RNil, c1) \<longrightarrow>
      redis_Create Do nm cap' rate' now1 c =
        (Return (Some \<lparr>name = nm, r_capacity = cap', r_remaining = cap',
                        r_reset = Time_Add now1 rate', r_rate = rate'\<rparr>, None), c1)) \<and>
   (Do c (GET nm) = (Inr (RBytes arr), c1) \<and> Atoi arr = Inr num \<and>
    Do c1 (PTTL nm) = (Inr (RInt64 ttl), c2) \<longrightarrow>
      redis_Create Do nm cap' rate' now1 c =
        (Return (Some \<lparr>name = nm, r_capacity = cap',
                        r_remaining = cap' - min_uint cap' num,
                        r_reset = Time_Add now1 (ttl * millisecond), r_rate = rate'\<rparr>, None), c2)) \<and>
   set (snd (snd (redis_Create (recording Do) nm cap' rate' now1 (c, [])))) \<subseteq> {GET nm, PTTL nm}"
proof (intro conjI impI)
  show "set (snd (snd (redis_Create (recording Do) nm cap' rate' now1 (c, [])))) \<subseteq> {GET nm, PTTL nm}"
    by (rule redis_Create_log)
  show "buckets (snd (memory_Create s nm cap rate'' now1 now2)) nm =
     Some (fst (fst (memory_Create s nm cap rate'' now1 now2)))"
    by (simp add: memory_Create_def Let_def split: option.splits)
next
  assume "buckets s nm = Some p"
  then show "memory_Create s nm cap' rate' now1 now2 = ((p, None), s)"
    by (simp add: memory_Create_def)
next
  assume "Do c (GET nm) = (Inr RNil, c1)"
  then show "redis_Create Do nm cap' rate' now1 c =
        (Return (Some \<lparr>name = nm, r_capacity = cap', r_remaining = cap',
                        r_reset = Time_Add now1 rate', r_rate = rate'\<rparr>, None), c1)"
    by (simp add: redis_Create_def)
next
  assume "Do c (GET nm) = (Inr (RBytes arr), c1) \<and> Atoi arr = Inr num \<and>
    Do c1 (PTTL nm) = (Inr (RInt64 ttl), c2)"
  then show "redis_Create Do nm cap' rate' now1 c =
        (Return (Some \<lparr>name = nm, r_capacity = cap',
                        r_remaining = cap' - min_uint cap' num,
                        r_reset = Time_Add now1 (ttl * millisecond), r_rate = rate'\<rparr>, None), c2)"
    by (simp add: redis_Create_def byteArrayToUint_def)
qed

theorem Create_again_witness:
  "memory_Create (snd (memory_Create memory_New ''a'' 10 1000000000 0 0)) ''a'' 5 2000000000 7 7 =
     ((0, None), snd (memory_Create memory_New ''a'' 10 1000000000 0 0)) \<and>
   heap (snd (memory_Create memory_New ''a'' 10 1000000000 0 0)) =
     [\<lparr>capacity = 10, remaining = 10, reset = 1000000000, rate = 1000000000, updated = 0\<rparr>] \<and>
   redis_Create fixed_Do ''k'' 5 2000000000 7 (held_key ''4'' 1000) =
     (Return (Some \<lparr>name = ''k'', r_capacity = 5, r_remaining = 1, r_reset = 1000000007,
                     r_rate = 2000000000\<rparr>, None), held_key ''4'' 1000)"
  using Create_again
    [where s = "snd (memory_Create memory_New ''a'' 10 1000000000 0 0)" and nm = "''a''" and p = 0
       and cap' = 5 and rate' = 2000000000 and ?now1.0 = 7 and ?now2.0 = 7]
    Create_again
    [where Do = fixed_Do and c = "held_key ''4'' 1000" and ?c1.0 = "held_key ''4'' 1000"
       and ?c2.0 = "held_key ''4'' 1000" and nm = "''k''" and arr = "''4''" and num = 4
       and ttl = 1000 and cap' = 5 and rate' = 2000000000 and ?now1.0 = 7]
  by (simp add: memory_Create_def memory_New_def Let_def Time_Add_def fixed_Do_def Atoi_4
        min_uint_def millisecond_def)

text \<open>
  C6 as stated fails in the redis backend. A bucket is created with capacity 10 and a
  rate of 1 s and 4 units are added: it has capacity 10 and 6 remaining, and the counter
  holds 4. A second \<^verbatim>\<open>Create\<close> of the name with capacity 5 and a rate of 2 s returns a
  bucket of capacity 5, 1 remaining and a rate of 2 s.
\<close>

theorem redis_Create_again_counterexample:
  "fst (redis_Create fixed_Do ''k'' 10 1000000000 0 (fresh_key 1000)) =
     Return (Some \<lparr>name = ''k'', r_capacity = 10, r_remaining = 10, r_reset = 1000000000,
                    r_rate = 1000000000\<rparr>, None) \<and>
   fst (snd (redis_Add fixed_Do
       \<lparr>name = ''k'', r_capacity = 10, r_remaining = 10, r_reset = 1000000000,
          r_rate = 1000000000\<rparr> 4 0 0 (fresh_key 1000))) =
     \<lparr>name = ''k'', r_capacity = 10, r_remaining = 6, r_reset = 1000000000, r_rate = 1000000000\<rparr> \<and>
   fst (redis_Create fixed_Do ''k'' 5 2000000000 0 (held_key ''4'' 1000)) =
     Return (Some \<lparr>name = ''k'', r_capacity = 5, r_remaining = 1, r_reset = 1000000000,
                    r_rate = 2000000000\<rparr>, None)"
  by (simp add: redis_Create_def redis_Add_def fixed_Do_def min_uint_def Unix_def Time_Add_def
        millisecond_def updateOldReset_def State_def byteArrayToUint_def Atoi_4)

end
